theory Spec2Isabelle
  imports Main "HOL-Library.Word"
begin

section \<open>Machine types of the exchange contract\<close>

text \<open>
  The contract \<open>MixinExchangeCore\<close> computes on \<open>uint256\<close>, \<open>address\<close> (160 bits),
  \<open>bytes32\<close>, \<open>bytes4\<close> and dynamic \<open>bytes\<close>. A failed \<open>require\<close> reverts the call,
  a failed \<open>assert\<close> (and a division by zero) aborts it; in both cases every state
  change of the call is rolled back, so a failing call is a value \<open>Inl\<close> and carries no
  state.
\<close>

type_synonym uint256 = "256 word"
type_synonym address = "160 word"
type_synonym bytes32 = "256 word"
type_synonym bytes4 = "32 word"
type_synonym bytes = "8 word list"

datatype abort = Revert | AssertFailed

section \<open>SafeMath and the rounding guard\<close>

text \<open>
  Modelled from the spec: the helpers \<open>safeMul\<close>, \<open>safeDiv\<close>, \<open>safeSub\<close>, \<open>safeAdd\<close>
  and \<open>min256\<close> of \<open>SafeMath.sol\<close>, which the contract inherits and whose source is not
  part of the files at hand. The specification fixes them as checked arithmetic: every
  addition, subtraction and multiplication aborts the whole call on overflow or
  underflow instead of wrapping or saturating; a division by zero aborts as every
  Solidity division does.
\<close>

definition safeMul :: "uint256 \<Rightarrow> uint256 \<Rightarrow> abort + uint256" where
  "safeMul a b = (if unat a * unat b < 2 ^ 256 then Inr (a * b) else Inl AssertFailed)"

definition safeDiv :: "uint256 \<Rightarrow> uint256 \<Rightarrow> abort + uint256" where
  "safeDiv a b = (if b = 0 then Inl AssertFailed else Inr (a div b))"

definition safeSub :: "uint256 \<Rightarrow> uint256 \<Rightarrow> abort + uint256" where
  "safeSub a b = (if b \<le> a then Inr (a - b) else Inl AssertFailed)"

definition safeAdd :: "uint256 \<Rightarrow> uint256 \<Rightarrow> abort + uint256" where
  "safeAdd a b = (if unat a + unat b < 2 ^ 256 then Inr (a + b) else Inl AssertFailed)"

definition min256 :: "uint256 \<Rightarrow> uint256 \<Rightarrow> uint256" where
  "min256 a b = (if a < b then a else b)"

text \<open>
  The built-in \<open>mulmod\<close> of Solidity as the contract is compiled, under
  \<open>pragma experimental "v0.5.0"\<close> (line 21): the product is taken in unbounded precision,
  and the compiler asserts that the modulus is not zero, so a zero modulus aborts the
  call.
\<close>

definition mulmod :: "uint256 \<Rightarrow> uint256 \<Rightarrow> uint256 \<Rightarrow> abort + uint256" where
  "mulmod a b n =
     (if n = 0 then Inl AssertFailed else Inr (of_nat ((unat a * unat b) mod unat n)))"

text \<open>\<open>isRoundingError\<close>, lines 172 to 187 of the contract.\<close>

definition isRoundingError :: "uint256 \<Rightarrow> uint256 \<Rightarrow> uint256 \<Rightarrow> abort + bool" where
  "isRoundingError numerator denominator target =
     (case mulmod target numerator denominator of
        Inl e \<Rightarrow> Inl e
      | Inr remainder \<Rightarrow>
          if remainder = 0 then Inr False
          else (case safeMul remainder 1000000 of
                  Inl e \<Rightarrow> Inl e
                | Inr scaled \<Rightarrow>
                   (case safeMul numerator target of
                      Inl e \<Rightarrow> Inl e
                    | Inr product \<Rightarrow>
                       (case safeDiv scaled product of
                          Inl e \<Rightarrow> Inl e
                        | Inr errPercentageTimes1000000 \<Rightarrow>
                            Inr (errPercentageTimes1000000 > 1000)))))"

section \<open>Orders, ledger state and collaborators\<close>

text \<open>
  The \<open>Order\<close> struct of \<open>LibOrder.sol\<close>, with its twelve fields in the order in which
  \<open>getFillOrderArgs\<close> fills them.
\<close>

record order =
  senderAddress :: address
  makerAddress :: address
  takerAddress :: address
  makerTokenAddress :: address
  takerTokenAddress :: address
  feeRecipientAddress :: address
  makerTokenAmount :: uint256
  takerTokenAmount :: uint256
  makerFeeAmount :: uint256
  takerFeeAmount :: uint256
  expirationTimeSeconds :: uint256
  salt :: uint256

text \<open>The members of the \<open>Errors\<close> enum that the contract emits.\<close>

datatype errors = ORDER_EXPIRED | ORDER_FULLY_FILLED_OR_CANCELLED | ROUNDING_ERROR_TOO_LARGE

datatype event =
    Fill address address address address address uint256 uint256 uint256 uint256 bytes32
  | Cancel address address address address uint256 uint256 bytes32
  | CancelUpTo address uint256
  | ExchangeError errors bytes32

text \<open>
  The storage of the contract: the four public mappings (a Solidity mapping is a total
  function whose default is zero), the log of emitted events, and the state \<open>tokens\<close> of
  the settlement collaborator, which the contract changes only through \<open>settleOrder\<close>.
\<close>

record 'x exchange =
  transactions :: "bytes32 \<Rightarrow> bool"
  filled :: "bytes32 \<Rightarrow> uint256"
  cancelled :: "bytes32 \<Rightarrow> uint256"
  makerEpoch :: "address \<Rightarrow> uint256"
  logs :: "event list"
  tokens :: 'x

definition empty_ledger :: "'x \<Rightarrow> 'x exchange" where
  "empty_ledger t =
     \<lparr>transactions = (\<lambda>_. False), filled = (\<lambda>_. 0), cancelled = (\<lambda>_. 0),
      makerEpoch = (\<lambda>_. 0), logs = [], tokens = t\<rparr>"

definition emit :: "'x exchange \<Rightarrow> event \<Rightarrow> 'x exchange" where
  "emit st ev = st\<lparr>logs := logs st @ [ev]\<rparr>"

text \<open>
  What the contract consumes from mixins and libraries whose source is not part of the
  files at hand, taken as parameters: the order hash of \<open>LibOrder\<close>, the signature
  validator of \<open>MSignatureValidator\<close>, the settlement of \<open>MSettlement\<close> (it may fail, and
  then the whole call fails), \<open>getPartialAmount\<close> of \<open>LibPartialAmount\<close>, the hash
  \<open>keccak256(salt, data)\<close> of a transaction, and the selector of \<open>fillOrder\<close>.
\<close>

record 'x env =
  getOrderHash :: "order \<Rightarrow> bytes32"
  isValidSignature :: "bytes32 \<Rightarrow> address \<Rightarrow> bytes \<Rightarrow> bool"
  settleOrder :: "'x \<Rightarrow> order \<Rightarrow> address \<Rightarrow> uint256 \<Rightarrow> abort + ('x \<times> uint256 \<times> uint256 \<times> uint256)"
  getPartialAmount :: "uint256 \<Rightarrow> uint256 \<Rightarrow> uint256 \<Rightarrow> abort + uint256"
  keccak256 :: "uint256 \<Rightarrow> bytes \<Rightarrow> bytes32"
  fillOrder_selector :: bytes4

text \<open>
  The context of one external call: \<open>msg.sender\<close>, \<open>block.timestamp\<close>, and, for
  \<open>executeTransaction\<close>, the memory into which the calldata argument \<open>data\<close> is copied,
  the address \<open>data_ptr\<close> of that copy, and the addresses \<open>order_ptr\<close> and
  \<open>signature_ptr\<close> at which the allocator places the order and the signature that
  \<open>getFillOrderArgs\<close> returns.
\<close>

type_synonym memory = "nat \<Rightarrow> 8 word"

record ctx =
  msg_sender :: address
  block_timestamp :: uint256
  mem :: memory
  data_ptr :: nat
  order_ptr :: nat
  signature_ptr :: nat

section \<open>The calldata decoder\<close>

text \<open>
  \<open>LibExchangeDecoder\<close> reads memory with \<open>mload\<close>. Memory is byte addressed; \<open>mload\<close>
  reads 32 bytes as one big-endian word and \<open>mstore\<close> writes one. A \<open>bytes\<close> value at
  address \<open>p\<close> is its length as a word at \<open>p\<close>, followed by its contents from \<open>p + 32\<close>.
  Addresses are natural numbers: the wrap-around of pointer arithmetic at \<open>2 ^ 256\<close> is
  out of reach of any memory that can be paid for.
\<close>

definition mload :: "memory \<Rightarrow> nat \<Rightarrow> uint256" where
  "mload m p = foldl (\<lambda>acc b. acc * 256 + ucast b) 0 (map m [p ..< p + 32])"

definition byte_of :: "uint256 \<Rightarrow> nat \<Rightarrow> 8 word" where
  "byte_of w i = ucast (drop_bit (8 * (31 - i)) w)"

definition mstore :: "memory \<Rightarrow> nat \<Rightarrow> uint256 \<Rightarrow> memory" where
  "mstore m p w = (\<lambda>a. if p \<le> a \<and> a < p + 32 then byte_of w (a - p) else m a)"

definition to_memory :: "memory \<Rightarrow> nat \<Rightarrow> bytes \<Rightarrow> memory" where
  "to_memory m p b =
     (\<lambda>a. if p \<le> a \<and> a < p + 32 then byte_of (of_nat (length b)) (a - p)
          else if p + 32 \<le> a \<and> a < p + 32 + length b then b ! (a - (p + 32))
          else m a)"

definition from_memory :: "memory \<Rightarrow> nat \<Rightarrow> bytes" where
  "from_memory m p = map m [p + 32 ..< p + 32 + unat (mload m p)]"

text \<open>\<open>get4\<close> and \<open>getFunctionSelector\<close>, lines 26 to 50 of the decoder.\<close>

definition get4 :: "memory \<Rightarrow> nat \<Rightarrow> uint256 \<Rightarrow> abort + bytes4" where
  "get4 m b index =
     (if \<not> mload m b \<ge> index + 32 then Inl Revert
      else (let index' = index + 32
            in Inr (ucast (drop_bit 224 (mload m (b + unat index'))))))"

definition getFunctionSelector :: "memory \<Rightarrow> nat \<Rightarrow> abort + bytes4" where
  "getFunctionSelector m data = get4 m data 0"

text \<open>
  \<open>new bytes(n)\<close> at address \<open>p\<close>: the length word and \<open>n\<close> zero bytes. The struct
  \<open>Order\<close> in memory: twelve words, an \<open>address\<close> field being the low 160 bits of its
  word.
\<close>

definition new_bytes :: "memory \<Rightarrow> nat \<Rightarrow> uint256 \<Rightarrow> memory" where
  "new_bytes m p n =
     (\<lambda>a. if p \<le> a \<and> a < p + 32 then byte_of n (a - p)
          else if p + 32 \<le> a \<and> a < p + 32 + unat n then 0
          else m a)"

definition order_at :: "memory \<Rightarrow> nat \<Rightarrow> order" where
  "order_at m p =
     \<lparr>senderAddress = ucast (mload m p),
      makerAddress = ucast (mload m (p + 32)),
      takerAddress = ucast (mload m (p + 64)),
      makerTokenAddress = ucast (mload m (p + 96)),
      takerTokenAddress = ucast (mload m (p + 128)),
      feeRecipientAddress = ucast (mload m (p + 160)),
      makerTokenAmount = mload m (p + 192),
      takerTokenAmount = mload m (p + 224),
      makerFeeAmount = mload m (p + 256),
      takerFeeAmount = mload m (p + 288),
      expirationTimeSeconds = mload m (p + 320),
      salt = mload m (p + 352)\<rparr>"

text \<open>
  The copy loop of \<open>getFillOrderArgs\<close>, lines 83 to 87: the counter \<open>cur\<close> (the source's
  \<open>curr\<close>) runs in steps of 32 while it is below \<open>sigLen + 32\<close>, computed in \<open>uint256\<close>,
  and each step stores the word read at \<open>sigStart + cur\<close> at \<open>signature + cur\<close>.
\<close>

function copy_signature :: "nat \<Rightarrow> nat \<Rightarrow> nat \<Rightarrow> nat \<Rightarrow> memory \<Rightarrow> memory" where
  "copy_signature sigStart signature bound cur m =
     (if cur < bound
      then copy_signature sigStart signature bound (cur + 32)
             (mstore m (signature + cur) (mload m (sigStart + cur)))
      else m)"
  by pat_completeness auto
termination
  by (relation "measure (\<lambda>(sigStart, signature, bound, cur, m). bound - cur)") auto

text \<open>
  \<open>getFillOrderArgs\<close>, lines 52 to 90. The function has no \<open>require\<close> and never looks at
  the length of \<open>data\<close>: each field is the word found at a fixed offset from \<open>data\<close>,
  inside the payload or past its end, at the moment it is read. The stores go to the
  one memory the loads read from, so a load past the end of the payload can meet a
  field stored before it. \<open>order\<close> and \<open>signature\<close> are the addresses of the two
  results.
\<close>

definition getFillOrderArgs :: "memory \<Rightarrow> nat \<Rightarrow> nat \<Rightarrow> nat \<Rightarrow> order \<times> uint256 \<times> bytes" where
  "getFillOrderArgs m0 data order signature =
     (let start = data + 36;
          m1 = mstore m0 order (mload m0 start);
          m2 = mstore m1 (order + 32) (mload m1 (start + 32));
          m3 = mstore m2 (order + 64) (mload m2 (start + 64));
          m4 = mstore m3 (order + 96) (mload m3 (start + 96));
          m5 = mstore m4 (order + 128) (mload m4 (start + 128));
          m6 = mstore m5 (order + 160) (mload m5 (start + 160));
          m7 = mstore m6 (order + 192) (mload m6 (start + 192));
          m8 = mstore m7 (order + 224) (mload m7 (start + 224));
          m9 = mstore m8 (order + 256) (mload m8 (start + 256));
          m10 = mstore m9 (order + 288) (mload m9 (start + 288));
          m11 = mstore m10 (order + 320) (mload m10 (start + 320));
          m12 = mstore m11 (order + 352) (mload m11 (start + 352));
          takerTokenFillAmount = mload m12 (start + 384);
          sigLen = mload m12 (start + 448);
          m13 = new_bytes m12 signature sigLen;
          sigStart = data + 484;
          m14 = copy_signature sigStart signature (unat (sigLen + 32)) 0 m13
      in (order_at m14 order, takerTokenFillAmount, from_memory m14 signature))"

section \<open>The exchange core\<close>

text \<open>\<open>getUnavailableTakerTokenAmount\<close>, lines 192 to 198.\<close>

definition getUnavailableTakerTokenAmount :: "'x exchange \<Rightarrow> bytes32 \<Rightarrow> abort + uint256" where
  "getUnavailableTakerTokenAmount st orderHash =
     safeAdd (filled st orderHash) (cancelled st orderHash)"

text \<open>
  \<open>fillOrderInternal\<close>, lines 200 to 280. Each \<open>require\<close> is a branch to \<open>Inl Revert\<close>;
  the three of the first reference (\<open>filled\<close> and \<open>cancelled\<close> both zero) are one
  branch, taken when one of them fails. The soft outcomes emit \<open>ExchangeError\<close> and
  return 0 with the ledger untouched. The parameter \<open>taker\<close> is the source's
  \<open>takerAddress\<close>.
\<close>

definition fillOrderInternal ::
  "'x env \<Rightarrow> ctx \<Rightarrow> 'x exchange \<Rightarrow> address \<Rightarrow> order \<Rightarrow> uint256 \<Rightarrow> bytes
     \<Rightarrow> abort + ('x exchange \<times> uint256)" where
  "fillOrderInternal env c st taker order takerTokenFillAmount signature =
     (let orderHash = getOrderHash env order in
      if filled st orderHash = 0 \<and> cancelled st orderHash = 0
         \<and> \<not> (makerTokenAmount order > 0 \<and> takerTokenAmount order > 0
                \<and> isValidSignature env orderHash (makerAddress order) signature)
      then Inl Revert
      else if senderAddress order \<noteq> 0 \<and> \<not> senderAddress order = msg_sender c
      then Inl Revert
      else if takerAddress order \<noteq> 0 \<and> \<not> takerAddress order = taker
      then Inl Revert
      else if \<not> takerTokenFillAmount > 0
      then Inl Revert
      else if block_timestamp c \<ge> expirationTimeSeconds order
      then Inr (emit st (ExchangeError ORDER_EXPIRED orderHash), 0)
      else (case getUnavailableTakerTokenAmount st orderHash of
              Inl e \<Rightarrow> Inl e
            | Inr unavailable \<Rightarrow>
      (case safeSub (takerTokenAmount order) unavailable of
              Inl e \<Rightarrow> Inl e
            | Inr remainingTakerTokenAmount \<Rightarrow>
      (let takerTokenFilledAmount = min256 takerTokenFillAmount remainingTakerTokenAmount in
       if takerTokenFilledAmount = 0
       then Inr (emit st (ExchangeError ORDER_FULLY_FILLED_OR_CANCELLED orderHash), 0)
       else (case isRoundingError takerTokenFilledAmount (takerTokenAmount order)
                   (makerTokenAmount order) of
               Inl e \<Rightarrow> Inl e
             | Inr True \<Rightarrow> Inr (emit st (ExchangeError ROUNDING_ERROR_TOO_LARGE orderHash), 0)
             | Inr False \<Rightarrow>
       if salt order < makerEpoch st (makerAddress order)
       then Inr (emit st (ExchangeError ORDER_FULLY_FILLED_OR_CANCELLED orderHash), 0)
       else (case safeAdd (filled st orderHash) takerTokenFilledAmount of
               Inl e \<Rightarrow> Inl e
             | Inr newFilled \<Rightarrow>
       (let st1 = st\<lparr>filled := (filled st)(orderHash := newFilled)\<rparr> in
        case settleOrder env (tokens st1) order taker takerTokenFilledAmount of
          Inl e \<Rightarrow> Inl e
        | Inr (tokens', makerTokenFilledAmount, makerFeeAmountPaid, takerFeeAmountPaid) \<Rightarrow>
            Inr (emit (st1\<lparr>tokens := tokens'\<rparr>)
                   (Fill (makerAddress order) taker (feeRecipientAddress order)
                      (makerTokenAddress order) (takerTokenAddress order)
                      makerTokenFilledAmount takerTokenFilledAmount
                      makerFeeAmountPaid takerFeeAmountPaid orderHash),
                 takerTokenFilledAmount))))))))"

text \<open>
  \<open>cancelOrderInternal\<close>, lines 282 to 332. The parameter \<open>maker\<close> is the source's
  \<open>makerAddress\<close>; no signature is involved.
\<close>

definition cancelOrderInternal ::
  "'x env \<Rightarrow> ctx \<Rightarrow> 'x exchange \<Rightarrow> address \<Rightarrow> order \<Rightarrow> uint256
     \<Rightarrow> abort + ('x exchange \<times> uint256)" where
  "cancelOrderInternal env c st maker order takerTokenCancelAmount =
     (let orderHash = getOrderHash env order in
      if \<not> makerTokenAmount order > 0 then Inl Revert
      else if \<not> takerTokenAmount order > 0 then Inl Revert
      else if \<not> takerTokenCancelAmount > 0 then Inl Revert
      else if senderAddress order \<noteq> 0 \<and> \<not> senderAddress order = msg_sender c
      then Inl Revert
      else if \<not> makerAddress order = maker then Inl Revert
      else if block_timestamp c \<ge> expirationTimeSeconds order
      then Inr (emit st (ExchangeError ORDER_EXPIRED orderHash), 0)
      else (case getUnavailableTakerTokenAmount st orderHash of
              Inl e \<Rightarrow> Inl e
            | Inr unavailable \<Rightarrow>
      (case safeSub (takerTokenAmount order) unavailable of
              Inl e \<Rightarrow> Inl e
            | Inr remainingTakerTokenAmount \<Rightarrow>
      (let takerTokenCancelledAmount = min256 takerTokenCancelAmount remainingTakerTokenAmount in
       if takerTokenCancelledAmount = 0
       then Inr (emit st (ExchangeError ORDER_FULLY_FILLED_OR_CANCELLED orderHash), 0)
       else (case safeAdd (cancelled st orderHash) takerTokenCancelledAmount of
               Inl e \<Rightarrow> Inl e
             | Inr newCancelled \<Rightarrow>
       (let st1 = st\<lparr>cancelled := (cancelled st)(orderHash := newCancelled)\<rparr> in
        case getPartialAmount env takerTokenCancelledAmount (takerTokenAmount order)
               (makerTokenAmount order) of
          Inl e \<Rightarrow> Inl e
        | Inr makerTokenCancelledAmount \<Rightarrow>
            Inr (emit st1
                   (Cancel (makerAddress order) (feeRecipientAddress order)
                      (makerTokenAddress order) (takerTokenAddress order)
                      makerTokenCancelledAmount takerTokenCancelledAmount orderHash),
                 takerTokenCancelledAmount)))))))"

text \<open>The external entry points \<open>fillOrder\<close> and \<open>cancelOrder\<close>, lines 125 to 155.\<close>

definition fillOrder ::
  "'x env \<Rightarrow> ctx \<Rightarrow> 'x exchange \<Rightarrow> order \<Rightarrow> uint256 \<Rightarrow> bytes
     \<Rightarrow> abort + ('x exchange \<times> uint256)" where
  "fillOrder env c st order takerTokenFillAmount signature =
     fillOrderInternal env c st (msg_sender c) order takerTokenFillAmount signature"

definition cancelOrder ::
  "'x env \<Rightarrow> ctx \<Rightarrow> 'x exchange \<Rightarrow> order \<Rightarrow> uint256 \<Rightarrow> abort + ('x exchange \<times> uint256)" where
  "cancelOrder env c st order takerTokenCancelAmount =
     cancelOrderInternal env c st (msg_sender c) order takerTokenCancelAmount"

text \<open>
  \<open>cancelOrdersUpTo\<close>, lines 158 to 165. The sum \<open>salt + 1\<close> is a plain \<open>uint256\<close>
  addition. The parameter \<open>upTo\<close> is the source's \<open>salt\<close>.
\<close>

definition cancelOrdersUpTo :: "ctx \<Rightarrow> 'x exchange \<Rightarrow> uint256 \<Rightarrow> abort + 'x exchange" where
  "cancelOrdersUpTo c st upTo =
     (let newMakerEpoch = upTo + 1 in
      if \<not> newMakerEpoch > makerEpoch st (msg_sender c) then Inl Revert
      else Inr (emit (st\<lparr>makerEpoch := (makerEpoch st)(msg_sender c := newMakerEpoch)\<rparr>)
                  (CancelUpTo (msg_sender c) newMakerEpoch)))"

text \<open>
  \<open>executeTransaction\<close>, lines 93 to 118. The calldata argument \<open>data\<close> is copied into
  memory at \<open>data_ptr\<close>; what the memory holds elsewhere is the context's. The parameter
  \<open>txSalt\<close> is the source's \<open>salt\<close>. The function returns nothing, so the amount that
  \<open>fillOrderInternal\<close> returns is dropped.
\<close>

definition executeTransaction ::
  "'x env \<Rightarrow> ctx \<Rightarrow> 'x exchange \<Rightarrow> uint256 \<Rightarrow> address \<Rightarrow> bytes \<Rightarrow> bytes \<Rightarrow> abort + 'x exchange" where
  "executeTransaction env c st txSalt signer data signature =
     (let transactionHash = keccak256 env txSalt data in
      if transactions st transactionHash then Inl Revert
      else if \<not> isValidSignature env transactionHash signer signature then Inl Revert
      else (let st1 = st\<lparr>transactions := (transactions st)(transactionHash := True)\<rparr>;
                m = to_memory (mem c) (data_ptr c) data
            in case getFunctionSelector m (data_ptr c) of
                 Inl e \<Rightarrow> Inl e
               | Inr selector \<Rightarrow>
                   if selector = fillOrder_selector env
                   then (case getFillOrderArgs m (data_ptr c) (order_ptr c) (signature_ptr c) of
                           (order, takerTokenFillAmount, makerSignature) \<Rightarrow>
                             (case fillOrderInternal env c st1 signer order
                                     takerTokenFillAmount makerSignature of
                                Inl e \<Rightarrow> Inl e
                              | Inr (st2, _) \<Rightarrow> Inr st2))
                   else Inr st1))"

section \<open>Sequences of calls\<close>

text \<open>
  The four external functions that change the ledger. A call that fails leaves the
  state as it was; calls run one at a time, each to completion.
\<close>

datatype call =
    FillOrder order uint256 bytes
  | CancelOrder order uint256
  | CancelOrdersUpTo uint256
  | ExecuteTransaction uint256 address bytes bytes

fun call_result :: "'x env \<Rightarrow> 'x exchange \<Rightarrow> ctx \<times> call \<Rightarrow> abort + 'x exchange" where
  "call_result env st (c, FillOrder order amount signature) =
     map_sum id fst (fillOrder env c st order amount signature)"
| "call_result env st (c, CancelOrder order amount) =
     map_sum id fst (cancelOrder env c st order amount)"
| "call_result env st (c, CancelOrdersUpTo upTo) = cancelOrdersUpTo c st upTo"
| "call_result env st (c, ExecuteTransaction txSalt signer data signature) =
     executeTransaction env c st txSalt signer data signature"

definition apply_call :: "'x env \<Rightarrow> 'x exchange \<Rightarrow> ctx \<times> call \<Rightarrow> 'x exchange" where
  "apply_call env st cc = (case call_result env st cc of Inl e \<Rightarrow> st | Inr st' \<Rightarrow> st')"

definition run :: "'x env \<Rightarrow> 'x exchange \<Rightarrow> (ctx \<times> call) list \<Rightarrow> 'x exchange" where
  "run env st cs = foldl (apply_call env) st cs"

text \<open>
  The order and the maker signature that a call hands to \<open>fillOrderInternal\<close>, if it
  gets that far: the arguments of \<open>fillOrder\<close>, or what \<open>executeTransaction\<close> decodes
  from a payload with the selector of \<open>fillOrder\<close>.
\<close>

fun fill_args :: "'x env \<Rightarrow> ctx \<times> call \<Rightarrow> (order \<times> bytes) option" where
  "fill_args env (c, FillOrder order amount signature) = Some (order, signature)"
| "fill_args env (c, CancelOrder order amount) = None"
| "fill_args env (c, CancelOrdersUpTo upTo) = None"
| "fill_args env (c, ExecuteTransaction txSalt signer data signature) =
     (let m = to_memory (mem c) (data_ptr c) data in
      if getFunctionSelector m (data_ptr c) = Inr (fillOrder_selector env)
      then (case getFillOrderArgs m (data_ptr c) (order_ptr c) (signature_ptr c) of
              (order, takerTokenFillAmount, makerSignature) \<Rightarrow> Some (order, makerSignature))
      else None)"

fun call_order :: "'x env \<Rightarrow> ctx \<times> call \<Rightarrow> order option" where
  "call_order env (c, CancelOrder order amount) = Some order"
| "call_order env cc = map_option fst (fill_args env cc)"

text \<open>
  The calls of a sequence agree with \<open>order\<close> on the taker amount wherever they hit its
  hash: the ledger is keyed by the hash alone, and the specification treats hash
  collisions as impossible.
\<close>

definition agrees_on_hash :: "'x env \<Rightarrow> order \<Rightarrow> ctx \<times> call \<Rightarrow> bool" where
  "agrees_on_hash env order cc =
     (case call_order env cc of
        None \<Rightarrow> True
      | Some order' \<Rightarrow> getOrderHash env order' \<noteq> getOrderHash env order
                       \<or> takerTokenAmount order' = takerTokenAmount order)"

text \<open>
  A fill call presents a signature that the validator accepts for the maker over the
  hash \<open>h\<close>; a cancel call on an order with hash \<open>h\<close> comes from the maker itself.
\<close>

definition presents_valid_signature :: "'x env \<Rightarrow> bytes32 \<Rightarrow> ctx \<times> call \<Rightarrow> bool" where
  "presents_valid_signature env h cc =
     (case fill_args env cc of
        None \<Rightarrow> False
      | Some (order, signature) \<Rightarrow>
          getOrderHash env order = h \<and> isValidSignature env h (makerAddress order) signature)"

fun cancel_by_maker :: "'x env \<Rightarrow> bytes32 \<Rightarrow> ctx \<times> call \<Rightarrow> bool" where
  "cancel_by_maker env h (c, CancelOrder order amount) =
     (getOrderHash env order = h \<and> makerAddress order = msg_sender c)"
| "cancel_by_maker env h cc = False"

text \<open>
  The checks of \<open>fillOrderInternal\<close> that come before the expiry test: the validation
  on first reference, the sender, the taker, and the positive fill amount.
\<close>

definition passes_hard_checks ::
  "'x env \<Rightarrow> ctx \<Rightarrow> 'x exchange \<Rightarrow> address \<Rightarrow> order \<Rightarrow> uint256 \<Rightarrow> bytes \<Rightarrow> bool" where
  "passes_hard_checks env c st taker order takerTokenFillAmount signature =
     ((filled st (getOrderHash env order) = 0 \<and> cancelled st (getOrderHash env order) = 0
         \<longrightarrow> makerTokenAmount order > 0 \<and> takerTokenAmount order > 0
             \<and> isValidSignature env (getOrderHash env order) (makerAddress order) signature)
      \<and> (senderAddress order \<noteq> 0 \<longrightarrow> senderAddress order = msg_sender c)
      \<and> (takerAddress order \<noteq> 0 \<longrightarrow> takerAddress order = taker)
      \<and> takerTokenFillAmount > 0)"

section \<open>The signature check of the client library\<close>

text \<open>
  \<open>ZeroEx.isValidSignature\<close> of \<open>0x.js.ts\<close>, lines 40 to 58. An \<open>ECSignature\<close> has the
  fields \<open>v\<close>, \<open>r\<close> and \<open>s\<close>. The three \<open>assert\<close> calls stand before the \<open>try\<close>, so
  what they throw leaves the function; what \<open>ecrecover\<close> or \<open>pubToAddress\<close> throw
  inside the \<open>try\<close> is caught and answered with \<open>false\<close>. The checks behind the
  assertions and the functions of \<open>ethereumjs-util\<close> are parameters.
\<close>

record ECSignature =
  ecsig_v :: int
  ecsig_r :: string
  ecsig_s :: string

datatype js_error = AssertionError

record ethUtil =
  isHexString :: "string \<Rightarrow> bool"
  doesConformToSchema :: "ECSignature \<Rightarrow> bool"
  isETHAddressHex :: "string \<Rightarrow> bool"
  toBuffer :: "string \<Rightarrow> bytes"
  hashPersonalMessage :: "bytes \<Rightarrow> bytes"
  ecrecover :: "bytes \<Rightarrow> int \<Rightarrow> bytes \<Rightarrow> bytes \<Rightarrow> bytes option"
  pubToAddress :: "bytes \<Rightarrow> bytes option"
  bufferToHex :: "bytes \<Rightarrow> string"

definition ZeroEx_isValidSignature ::
  "ethUtil \<Rightarrow> string \<Rightarrow> ECSignature \<Rightarrow> string \<Rightarrow> js_error + bool" where
  "ZeroEx_isValidSignature lib dataHex signature signerAddressHex =
     (if \<not> isHexString lib dataHex then Inl AssertionError
      else if \<not> doesConformToSchema lib signature then Inl AssertionError
      else if \<not> isETHAddressHex lib signerAddressHex then Inl AssertionError
      else (let dataBuff = toBuffer lib dataHex;
                msgHashBuff = hashPersonalMessage lib dataBuff
            in case ecrecover lib msgHashBuff (ecsig_v signature)
                      (toBuffer lib (ecsig_r signature)) (toBuffer lib (ecsig_s signature)) of
                 None \<Rightarrow> Inr False
               | Some pubKey \<Rightarrow>
                   (case pubToAddress lib pubKey of
                      None \<Rightarrow> Inr False
                    | Some addressBuff \<Rightarrow>
                        (let retrievedAddress = bufferToHex lib addressBuff
                         in Inr (retrievedAddress = signerAddressHex)))))"

section \<open>Auxiliary notions for the statements\<close>

text \<open>
  The effect of a successful \<open>fillOrderInternal\<close> with result \<open>r\<close>: the checks were
  passed, only \<open>filled\<close> at the order's hash can have changed, and it grew by \<open>r\<close>, which
  is at most the requested amount and at most what was left of the order.
\<close>

definition fill_effect ::
  "'x env \<Rightarrow> ctx \<Rightarrow> 'x exchange \<Rightarrow> address \<Rightarrow> order \<Rightarrow> uint256 \<Rightarrow> bytes
     \<Rightarrow> 'x exchange \<Rightarrow> uint256 \<Rightarrow> bool" where
  "fill_effect env c st taker order amount signature st' r =
     (passes_hard_checks env c st taker order amount signature
      \<and> transactions st' = transactions st \<and> cancelled st' = cancelled st
      \<and> makerEpoch st' = makerEpoch st
      \<and> (r = 0 \<and> filled st' = filled st
          \<or> r \<noteq> 0 \<and> unat r \<le> unat amount
            \<and> unat (filled st (getOrderHash env order))
                + unat (cancelled st (getOrderHash env order)) + unat r
                 \<le> unat (takerTokenAmount order)
            \<and> filled st' = (filled st)
                  (getOrderHash env order := filled st (getOrderHash env order) + r)
            \<and> unat (filled st (getOrderHash env order) + r)
                 = unat (filled st (getOrderHash env order)) + unat r))"

text \<open>The same for a successful \<open>cancelOrderInternal\<close>.\<close>

definition cancel_effect ::
  "'x env \<Rightarrow> ctx \<Rightarrow> 'x exchange \<Rightarrow> address \<Rightarrow> order \<Rightarrow> uint256
     \<Rightarrow> 'x exchange \<Rightarrow> uint256 \<Rightarrow> bool" where
  "cancel_effect env c st maker order amount st' r =
     (makerAddress order = maker
      \<and> transactions st' = transactions st \<and> filled st' = filled st
      \<and> makerEpoch st' = makerEpoch st
      \<and> (r = 0 \<and> cancelled st' = cancelled st
          \<or> r \<noteq> 0 \<and> unat r \<le> unat amount
            \<and> unat (filled st (getOrderHash env order))
                + unat (cancelled st (getOrderHash env order)) + unat r
                 \<le> unat (takerTokenAmount order)
            \<and> cancelled st' = (cancelled st)
                  (getOrderHash env order := cancelled st (getOrderHash env order) + r)
            \<and> unat (cancelled st (getOrderHash env order) + r)
                 = unat (cancelled st (getOrderHash env order)) + unat r))"

definition within_amount :: "'x exchange \<Rightarrow> bytes32 \<Rightarrow> uint256 \<Rightarrow> bool" where
  "within_amount st h amt = (unat (filled st h) + unat (cancelled st h) \<le> unat amt)"

definition entry_nonzero :: "'x exchange \<Rightarrow> bytes32 \<Rightarrow> bool" where
  "entry_nonzero st h = (filled st h \<noteq> 0 \<or> cancelled st h \<noteq> 0)"

section \<open>Concrete instances\<close>

text \<open>
  One instance of the collaborators, for running the contract on concrete calls: the
  hash of an order is its salt, the validator accepts the one-byte signature \<open>[1]\<close>,
  the settlement always succeeds and reports the proportional maker amount with no
  fees, and a transaction hashes to its salt. \<open>rejecting_env\<close> differs in a validator
  that accepts no signature at all.
\<close>

definition partial_amount :: "uint256 \<Rightarrow> uint256 \<Rightarrow> uint256 \<Rightarrow> abort + uint256" where
  "partial_amount numerator denominator target =
     (case safeMul numerator target of Inl e \<Rightarrow> Inl e | Inr p \<Rightarrow> safeDiv p denominator)"

definition demo_env :: "unit env" where
  "demo_env =
     \<lparr>getOrderHash = salt,
      isValidSignature = (\<lambda>h signer signature. signature = [1]),
      settleOrder = (\<lambda>t order taker amount.
         case partial_amount amount (takerTokenAmount order) (makerTokenAmount order) of
           Inl e \<Rightarrow> Inl e
         | Inr makerAmount \<Rightarrow> Inr (t, makerAmount, 0, 0)),
      getPartialAmount = partial_amount,
      keccak256 = (\<lambda>txSalt data. txSalt),
      fillOrder_selector = 1\<rparr>"

definition rejecting_env :: "unit env" where
  "rejecting_env = demo_env\<lparr>isValidSignature := (\<lambda>h signer signature. False)\<rparr>"

text \<open>
  The order of the specification's end-to-end examples: 200 maker tokens for 100 taker
  tokens, maker 1, open to every taker and sender, expiring at time 1000.
\<close>

definition demo_order :: order where
  "demo_order =
     \<lparr>senderAddress = 0, makerAddress = 1, takerAddress = 0, makerTokenAddress = 10,
      takerTokenAddress = 11, feeRecipientAddress = 0, makerTokenAmount = 200,
      takerTokenAmount = 100, makerFeeAmount = 0, takerFeeAmount = 0,
      expirationTimeSeconds = 1000, salt = 7\<rparr>"

text \<open>
  A call by \<open>sender\<close> at time \<open>now\<close>, in fresh memory: the payload goes to address 128,
  a decoded order to 224, right behind a payload of up to 64 bytes, and a decoded
  signature to 608, right behind the order.
\<close>

definition call_at :: "address \<Rightarrow> uint256 \<Rightarrow> ctx" where
  "call_at sender now =
     \<lparr>msg_sender = sender, block_timestamp = now, mem = (\<lambda>_. 0), data_ptr = 128,
      order_ptr = 224, signature_ptr = 608\<rparr>"

definition demo_calls :: "(ctx \<times> call) list" where
  "demo_calls =
     [(call_at 2 5, FillOrder demo_order 50 [1]),
      (call_at 1 6, CancelOrder demo_order 30),
      (call_at 2 7, FillOrder demo_order 200 [1])]"

definition maker_cancels :: "(ctx \<times> call) list" where
  "maker_cancels = [(call_at 1 5, CancelOrder demo_order 30)]"

definition filled_up :: "unit exchange" where
  "filled_up = (empty_ledger ())\<lparr>filled := (\<lambda>_. 0)(7 := 70), cancelled := (\<lambda>_. 0)(7 := 30)\<rparr>"

text \<open>
  Two payloads: 36 bytes, the selector \<open>0x00000001\<close> followed by one word of value
  5, and 32 zero bytes.
\<close>

definition short_payload :: bytes where
  "short_payload =
     [0, 0, 0, 1,
      0, 0, 0, 0, 0, 0, 0, 0, 0, 0, 0, 0, 0, 0, 0, 0,
      0, 0, 0, 0, 0, 0, 0, 0, 0, 0, 0, 0, 0, 0, 0, 5]"

definition unsupported_payload :: bytes where
  "unsupported_payload = replicate 32 0"

text \<open>
  One instance of the library behind \<open>ZeroEx.isValidSignature\<close>: a hex string starts
  with \<open>0x\<close> and goes on in hex digits, a signature conforms when \<open>v\<close> is 27 or 28, and
  recovery succeeds for \<open>v = 27\<close> only.
\<close>

definition demo_lib :: ethUtil where
  "demo_lib =
     \<lparr>isHexString = (\<lambda>x. take 2 x = ''0x''
          \<and> list_all (\<lambda>ch. ch \<in> set ''0123456789abcdefABCDEF'') (drop 2 x)),
      doesConformToSchema = (\<lambda>signature. ecsig_v signature = 27 \<or> ecsig_v signature = 28),
      isETHAddressHex = (\<lambda>x. take 2 x = ''0x''),
      toBuffer = (\<lambda>x. map (\<lambda>ch. of_nat (of_char ch)) (drop 2 x)),
      hashPersonalMessage = (\<lambda>b. b),
      ecrecover = (\<lambda>h v r s. if v = 27 then Some r else None),
      pubToAddress = (\<lambda>k. Some k),
      bufferToHex = (\<lambda>b. ''0x'' @ map (\<lambda>w. char_of (unat w)) b)\<rparr>"

section \<open>Arithmetic lemmas\<close>

lemma mulmod_zero: "mulmod a b 0 = Inl AssertFailed"
  by (simp add: mulmod_def)

lemma mulmod_Inr:
  assumes "n \<noteq> 0"
  obtains r where "mulmod a b n = Inr r" and "unat r = (unat a * unat b) mod unat n"
proof -
  from assms have pos: "0 < unat n" by (simp add: unat_gt_0)
  have "(unat a * unat b) mod unat n < unat n"
    using pos by simp
  also have "unat n < 2 ^ LENGTH(256)"
    by (rule unsigned_less)
  finally have "unat (of_nat ((unat a * unat b) mod unat n) :: uint256)
      = (unat a * unat b) mod unat n"
    by (simp add: unat_of_nat)
  moreover have "mulmod a b n = Inr (of_nat ((unat a * unat b) mod unat n))"
    using assms by (simp add: mulmod_def)
  ultimately show thesis by (rule that [rotated])
qed

lemma safeMul_Inr:
  "unat a * unat b < 2 ^ 256 \<Longrightarrow> safeMul a b = Inr (a * b) \<and> unat (a * b) = unat a * unat b"
  by (simp add: safeMul_def unat_mult_lem [THEN iffD1])

lemma safeAdd_InrD:
  "safeAdd a b = Inr x \<Longrightarrow> x = a + b \<and> unat (a + b) = unat a + unat b"
  by (auto simp: safeAdd_def unat_add_lem [THEN iffD1] split: if_splits)

lemma safeSub_InrD:
  "safeSub a b = Inr x \<Longrightarrow> x = a - b \<and> unat b \<le> unat a \<and> unat (a - b) = unat a - unat b"
  by (auto simp: safeSub_def word_le_nat_alt unat_sub split: if_splits)

lemma unat_min256: "unat (min256 a b) = min (unat a) (unat b)"
  by (auto simp: min256_def word_less_nat_alt)

lemma getUnavailable_InrD:
  "getUnavailableTakerTokenAmount st h = Inr x \<Longrightarrow>
     unat x = unat (filled st h) + unat (cancelled st h)"
  by (auto simp: getUnavailableTakerTokenAmount_def dest: safeAdd_InrD)

text \<open>
  The rounding guard in natural numbers: an abort for a zero denominator; otherwise,
  with \<open>r\<close> the remainder, \<open>false\<close> for \<open>r = 0\<close>, the comparison of the quotient with
  1000 when both products fit into 256 bits, and an abort when one does not.
\<close>

lemma isRoundingError_cases:
  "isRoundingError numerator denominator target =
     (if denominator = 0 then Inl AssertFailed
      else (let r = (unat target * unat numerator) mod unat denominator in
            if r = 0 then Inr False
            else if r * 1000000 < 2 ^ 256 \<and> unat numerator * unat target < 2 ^ 256
                 then Inr (1000 < r * 1000000 div (unat numerator * unat target))
                 else Inl AssertFailed))"
proof (cases "denominator = 0")
  case True
  then show ?thesis by (simp add: isRoundingError_def mulmod_zero)
next
  case d: False
  then obtain rem where rem: "mulmod target numerator denominator = Inr rem"
    and ur: "unat rem = (unat target * unat numerator) mod unat denominator"
    by (rule mulmod_Inr)
  show ?thesis
  proof (cases "rem = 0")
    case True
    with d rem ur show ?thesis by (simp add: isRoundingError_def)
  next
    case nz: False
    then have rn: "unat rem \<noteq> 0"
      using unat_gt_0 [of rem] by simp
    show ?thesis
    proof (cases "unat rem * 1000000 < 2 ^ 256")
      case ov1: False
      then have "safeMul rem 1000000 = Inl AssertFailed"
        by (simp add: safeMul_def)
      with d rem nz rn ov1 ur show ?thesis
        by (simp add: isRoundingError_def Let_def)
    next
      case ok1: True
      then have m1: "safeMul rem 1000000 = Inr (rem * 1000000)"
        and u1: "unat (rem * 1000000) = unat rem * 1000000"
        using safeMul_Inr [of rem 1000000] by simp_all
      show ?thesis
      proof (cases "unat numerator * unat target < 2 ^ 256")
        case ov2: False
        then have "safeMul numerator target = Inl AssertFailed"
          by (simp add: safeMul_def)
        with d rem nz rn m1 ov2 ur show ?thesis
          by (simp add: isRoundingError_def Let_def)
      next
        case ok2: True
        then have m2: "safeMul numerator target = Inr (numerator * target)"
          and u2: "unat (numerator * target) = unat numerator * unat target"
          using safeMul_Inr [of numerator target] by simp_all
        have "unat numerator * unat target \<noteq> 0"
        proof
          assume "unat numerator * unat target = 0"
          then have "unat target * unat numerator = 0" by (simp add: mult.commute)
          then have "unat rem = 0"
            by (simp only: ur mod_0)
          with rn show False by simp
        qed
        then have p0: "numerator * target \<noteq> 0"
          using u2 by (metis unat_eq_0)
        have "(1000 < rem * 1000000 div (numerator * target)) \<longleftrightarrow>
              1000 < unat (rem * 1000000 div (numerator * target))"
          by (simp add: word_less_nat_alt)
        also have "\<dots> \<longleftrightarrow> 1000 < unat rem * 1000000 div (unat numerator * unat target)"
          by (simp add: unat_div u1 u2)
        finally have cmp: "(1000 < rem * 1000000 div (numerator * target)) \<longleftrightarrow>
          1000 < unat rem * 1000000 div (unat numerator * unat target)" .
        from d rem nz rn m1 m2 p0 ok1 ok2 cmp ur show ?thesis
          by (simp add: isRoundingError_def Let_def safeDiv_def)
      qed
    qed
  qed
qed

section \<open>What the calls do to the ledger\<close>

lemma fillOrderInternal_effect:
  assumes "fillOrderInternal env c st taker order amount signature = Inr (st', r)"
  shows "fill_effect env c st taker order amount signature st' r"
proof -
  let ?h = "getOrderHash env order"
  have hard: "passes_hard_checks env c st taker order amount signature"
    using assms
    by (auto simp: fillOrderInternal_def passes_hard_checks_def Let_def split: if_splits)
  show ?thesis
  proof (cases "block_timestamp c \<ge> expirationTimeSeconds order")
    case True
    with assms hard show ?thesis
      by (auto simp: fillOrderInternal_def fill_effect_def emit_def Let_def split: if_splits)
  next
    case False
    from assms False obtain unavailable remaining where
      u: "getUnavailableTakerTokenAmount st ?h = Inr unavailable"
      and s: "safeSub (takerTokenAmount order) unavailable = Inr remaining"
      by (auto simp: fillOrderInternal_def Let_def split: if_splits sum.splits)
    have un: "unat unavailable = unat (filled st ?h) + unat (cancelled st ?h)"
      using u by (rule getUnavailable_InrD)
    have rem: "unat remaining = unat (takerTokenAmount order) - unat unavailable"
      and le: "unat unavailable \<le> unat (takerTokenAmount order)"
      using safeSub_InrD [OF s] by auto
    let ?f = "min256 amount remaining"
    have fle: "unat ?f \<le> unat amount" "unat ?f \<le> unat remaining"
      by (simp_all add: unat_min256)
    show ?thesis
    proof (cases "r = 0")
      case True
      with assms hard False u s show ?thesis
        by (auto simp: fillOrderInternal_def fill_effect_def emit_def Let_def
            split: if_splits sum.splits bool.splits prod.splits)
    next
      case nz: False
      with assms False u s obtain newFilled where
        a: "safeAdd (filled st ?h) ?f = Inr newFilled" and r: "r = ?f"
        by (auto simp: fillOrderInternal_def emit_def Let_def
            split: if_splits sum.splits bool.splits prod.splits)
      have nf: "newFilled = filled st ?h + ?f" "unat (filled st ?h + ?f) = unat (filled st ?h) + unat ?f"
        using safeAdd_InrD [OF a] by auto
      have st': "transactions st' = transactions st" "cancelled st' = cancelled st"
        "makerEpoch st' = makerEpoch st" "filled st' = (filled st)(?h := newFilled)"
        using assms False u s a nz
        by (auto simp: fillOrderInternal_def emit_def Let_def
            split: if_splits sum.splits bool.splits prod.splits)
      have "unat (filled st ?h) + unat (cancelled st ?h) + unat ?f \<le> unat (takerTokenAmount order)"
        using fle(2) rem le un by simp
      with hard nz r nf st' fle(1) show ?thesis
        by (simp add: fill_effect_def)
    qed
  qed
qed

lemma cancelOrderInternal_effect:
  assumes "cancelOrderInternal env c st maker order amount = Inr (st', r)"
  shows "cancel_effect env c st maker order amount st' r"
proof -
  let ?h = "getOrderHash env order"
  have mk: "makerAddress order = maker"
    using assms by (auto simp: cancelOrderInternal_def Let_def split: if_splits)
  show ?thesis
  proof (cases "block_timestamp c \<ge> expirationTimeSeconds order")
    case True
    with assms mk show ?thesis
      by (auto simp: cancelOrderInternal_def cancel_effect_def emit_def Let_def split: if_splits)
  next
    case False
    from assms False obtain unavailable remaining where
      u: "getUnavailableTakerTokenAmount st ?h = Inr unavailable"
      and s: "safeSub (takerTokenAmount order) unavailable = Inr remaining"
      by (auto simp: cancelOrderInternal_def Let_def split: if_splits sum.splits)
    have un: "unat unavailable = unat (filled st ?h) + unat (cancelled st ?h)"
      using u by (rule getUnavailable_InrD)
    have rem: "unat remaining = unat (takerTokenAmount order) - unat unavailable"
      and le: "unat unavailable \<le> unat (takerTokenAmount order)"
      using safeSub_InrD [OF s] by auto
    let ?f = "min256 amount remaining"
    have fle: "unat ?f \<le> unat amount" "unat ?f \<le> unat remaining"
      by (simp_all add: unat_min256)
    show ?thesis
    proof (cases "r = 0")
      case True
      with assms mk False u s show ?thesis
        by (auto simp: cancelOrderInternal_def cancel_effect_def emit_def Let_def
            split: if_splits sum.splits)
    next
      case nz: False
      with assms False u s obtain newCancelled where
        a: "safeAdd (cancelled st ?h) ?f = Inr newCancelled" and r: "r = ?f"
        by (auto simp: cancelOrderInternal_def emit_def Let_def
            split: if_splits sum.splits)
      have nf: "newCancelled = cancelled st ?h + ?f"
        "unat (cancelled st ?h + ?f) = unat (cancelled st ?h) + unat ?f"
        using safeAdd_InrD [OF a] by auto
      have st': "transactions st' = transactions st" "filled st' = filled st"
        "makerEpoch st' = makerEpoch st" "cancelled st' = (cancelled st)(?h := newCancelled)"
        using assms False u s a nz
        by (auto simp: cancelOrderInternal_def emit_def Let_def
            split: if_splits sum.splits)
      have "unat (filled st ?h) + unat (cancelled st ?h) + unat ?f \<le> unat (takerTokenAmount order)"
        using fle(2) rem le un by simp
      with mk nz r nf st' fle(1) show ?thesis
        by (simp add: cancel_effect_def)
    qed
  qed
qed

lemma cancelOrdersUpTo_effect:
  "cancelOrdersUpTo c st upTo = Inr st' \<Longrightarrow>
     transactions st' = transactions st \<and> filled st' = filled st \<and> cancelled st' = cancelled st"
  by (auto simp: cancelOrdersUpTo_def emit_def Let_def split: if_splits)

lemma executeTransaction_effect:
  assumes "executeTransaction env c st txSalt signer data signature = Inr st'"
  shows "transactions st' = (transactions st)(keccak256 env txSalt data := True)
     \<and> \<not> transactions st (keccak256 env txSalt data)
     \<and> (filled st' = filled st \<and> cancelled st' = cancelled st
        \<or> (\<exists>order amount makerSignature r.
              fill_args env (c, ExecuteTransaction txSalt signer data signature) = Some (order, makerSignature)
              \<and> fill_effect env c (st\<lparr>transactions := (transactions st)(keccak256 env txSalt data := True)\<rparr>)
                    signer order amount makerSignature st' r))"
proof -
  let ?st1 = "st\<lparr>transactions := (transactions st)(keccak256 env txSalt data := True)\<rparr>"
  let ?m = "to_memory (mem c) (data_ptr c) data"
  from assms have nt: "\<not> transactions st (keccak256 env txSalt data)"
    by (auto simp: executeTransaction_def Let_def split: if_splits)
  from assms obtain selector where sel: "getFunctionSelector ?m (data_ptr c) = Inr selector"
    by (auto simp: executeTransaction_def Let_def split: if_splits sum.splits)
  show ?thesis
  proof (cases "selector = fillOrder_selector env")
    case False
    with assms sel have "st' = ?st1"
      by (auto simp: executeTransaction_def Let_def split: if_splits)
    with nt show ?thesis by simp
  next
    case True
    obtain order amount makerSignature where
      d: "getFillOrderArgs ?m (data_ptr c) (order_ptr c) (signature_ptr c)
            = (order, amount, makerSignature)"
      by (cases "getFillOrderArgs ?m (data_ptr c) (order_ptr c) (signature_ptr c)") auto
    from assms sel True d obtain r where
      f: "fillOrderInternal env c ?st1 signer order amount makerSignature = Inr (st', r)"
      by (auto simp: executeTransaction_def Let_def split: if_splits sum.splits)
    have fa: "fill_args env (c, ExecuteTransaction txSalt signer data signature) = Some (order, makerSignature)"
      using sel True d by (simp add: Let_def)
    have fe: "fill_effect env c ?st1 signer order amount makerSignature st' r"
      using f by (rule fillOrderInternal_effect)
    then have "transactions st' = (transactions st)(keccak256 env txSalt data := True)"
      by (simp add: fill_effect_def)
    with nt fa fe show ?thesis by blast
  qed
qed

lemma run_Nil: "run env st [] = st"
  by (simp add: run_def)

lemma run_Cons: "run env st (cc # cs) = run env (apply_call env st cc) cs"
  by (simp add: run_def)

lemma run_snoc: "run env st (cs @ [cc]) = apply_call env (run env st cs) cc"
  by (simp add: run_def)

text \<open>Each call as a case analysis on its success.\<close>

lemma apply_call_cases:
  obtains (failed) "apply_call env st cc = st"
  | (fill) c order amount signature st' r where "cc = (c, FillOrder order amount signature)"
      "apply_call env st cc = st'"
      "fill_effect env c st (msg_sender c) order amount signature st' r"
  | (cancel) c order amount st' r where "cc = (c, CancelOrder order amount)"
      "apply_call env st cc = st'"
      "cancel_effect env c st (msg_sender c) order amount st' r"
  | (upTo) c upTo st' where "cc = (c, CancelOrdersUpTo upTo)"
      "apply_call env st cc = st'" "cancelOrdersUpTo c st upTo = Inr st'"
  | (exec) c txSalt signer data signature st' where "cc = (c, ExecuteTransaction txSalt signer data signature)"
      "apply_call env st cc = st'" "executeTransaction env c st txSalt signer data signature = Inr st'"
proof -
  obtain c cl where cc: "cc = (c, cl)" by (cases cc)
  show thesis
  proof (cases "call_result env st cc")
    case (Inl e)
    then have "apply_call env st cc = st" by (simp add: apply_call_def)
    then show thesis by (rule failed)
  next
    case (Inr st')
    then have a: "apply_call env st cc = st'" by (simp add: apply_call_def)
    show thesis
    proof (cases cl)
      case (FillOrder order amount signature)
      with Inr cc obtain r where "fillOrder env c st order amount signature = Inr (st', r)"
        by (cases "fillOrder env c st order amount signature") auto
      then have "fill_effect env c st (msg_sender c) order amount signature st' r"
        unfolding fillOrder_def by (rule fillOrderInternal_effect)
      with a cc FillOrder show thesis by (auto intro: fill)
    next
      case (CancelOrder order amount)
      with Inr cc obtain r where "cancelOrder env c st order amount = Inr (st', r)"
        by (cases "cancelOrder env c st order amount") auto
      then have "cancel_effect env c st (msg_sender c) order amount st' r"
        unfolding cancelOrder_def by (rule cancelOrderInternal_effect)
      with a cc CancelOrder show thesis by (auto intro: cancel)
    next
      case (CancelOrdersUpTo u)
      with Inr cc a show thesis by (auto intro: upTo)
    next
      case (ExecuteTransaction txSalt signer data signature)
      with Inr cc a show thesis by (auto intro: exec)
    qed
  qed
qed

section \<open>The ledger stays within the taker amount\<close>

lemma fill_effect_within:
  assumes "fill_effect env c st taker order' amount signature st' r"
    and "getOrderHash env order' \<noteq> h \<or> takerTokenAmount order' = amt"
    and "filled st0 = filled st" "cancelled st0 = cancelled st"
    and "within_amount st0 h amt"
  shows "within_amount st' h amt"
  using assms by (auto simp: fill_effect_def within_amount_def)

lemma cancel_effect_within:
  assumes "cancel_effect env c st maker order' amount st' r"
    and "getOrderHash env order' \<noteq> h \<or> takerTokenAmount order' = amt"
    and "within_amount st h amt"
  shows "within_amount st' h amt"
  using assms by (auto simp: cancel_effect_def within_amount_def)

lemma apply_call_within:
  assumes a: "agrees_on_hash env order cc"
    and w: "within_amount st (getOrderHash env order) (takerTokenAmount order)"
  shows "within_amount (apply_call env st cc) (getOrderHash env order) (takerTokenAmount order)"
proof (cases rule: apply_call_cases [of env st cc])
  case failed
  with w show ?thesis by simp
next
  case (fill c order' amount signature st' r)
  from a fill(1) have "getOrderHash env order' \<noteq> getOrderHash env order
      \<or> takerTokenAmount order' = takerTokenAmount order"
    by (simp add: agrees_on_hash_def)
  with fill w show ?thesis
    by (auto intro: fill_effect_within)
next
  case (cancel c order' amount st' r)
  from a cancel(1) have "getOrderHash env order' \<noteq> getOrderHash env order
      \<or> takerTokenAmount order' = takerTokenAmount order"
    by (simp add: agrees_on_hash_def)
  with cancel w show ?thesis
    by (auto intro: cancel_effect_within)
next
  case (upTo c u st')
  with w cancelOrdersUpTo_effect [OF upTo(3)] show ?thesis
    by (simp add: within_amount_def)
next
  case (exec c txSalt signer data signature st')
  from executeTransaction_effect [OF exec(3)]
  consider "filled st' = filled st \<and> cancelled st' = cancelled st"
    | order' amount makerSignature r where
      "fill_args env (c, ExecuteTransaction txSalt signer data signature) = Some (order', makerSignature)"
      "fill_effect env c (st\<lparr>transactions := (transactions st)(keccak256 env txSalt data := True)\<rparr>)
                    signer order' amount makerSignature st' r"
    by blast
  then show ?thesis
  proof cases
    case 1
    with w exec(2) show ?thesis by (simp add: within_amount_def)
  next
    case 2
    from a exec(1) 2(1) have "getOrderHash env order' \<noteq> getOrderHash env order
      \<or> takerTokenAmount order' = takerTokenAmount order"
      by (simp add: agrees_on_hash_def)
    with 2(2) w exec(2) show ?thesis
      by (auto intro: fill_effect_within [where ?st0.0 = st])
  qed
qed

lemma run_within:
  "list_all (agrees_on_hash env order) cs \<Longrightarrow>
   within_amount st (getOrderHash env order) (takerTokenAmount order) \<Longrightarrow>
   within_amount (run env st cs) (getOrderHash env order) (takerTokenAmount order)"
proof (induction cs arbitrary: st)
  case Nil
  then show ?case by (simp add: run_Nil)
next
  case (Cons cc cs)
  then show ?case by (simp add: run_Cons apply_call_within)
qed

section \<open>Executed transactions stay executed\<close>

lemma apply_call_transactions:
  assumes "transactions st h"
  shows "transactions (apply_call env st cc) h"
proof (cases rule: apply_call_cases [of env st cc])
  case failed
  with assms show ?thesis by simp
next
  case (fill c order amount signature st' r)
  with assms show ?thesis by (simp add: fill_effect_def)
next
  case (cancel c order amount st' r)
  with assms show ?thesis by (simp add: cancel_effect_def)
next
  case (upTo c u st')
  with assms cancelOrdersUpTo_effect [OF upTo(3)] show ?thesis by simp
next
  case (exec c txSalt signer data signature st')
  with assms executeTransaction_effect [OF exec(3)] show ?thesis by simp
qed

lemma run_transactions:
  "transactions st h \<Longrightarrow> transactions (run env st cs) h"
  by (induction cs arbitrary: st) (simp_all add: run_Nil run_Cons apply_call_transactions)

lemma executeTransaction_replayed:
  "transactions st (keccak256 env txSalt data) \<Longrightarrow>
     executeTransaction env c st txSalt signer data signature = Inl Revert"
  by (simp add: executeTransaction_def)

section \<open>Where a ledger entry comes from\<close>

lemma fill_effect_entry:
  assumes "fill_effect env c st taker order amount signature st' r"
    and "filled st0 = filled st" "cancelled st0 = cancelled st"
    and "entry_nonzero st' h" "\<not> entry_nonzero st0 h"
  shows "getOrderHash env order = h \<and> isValidSignature env h (makerAddress order) signature"
  using assms
  by (auto simp: fill_effect_def entry_nonzero_def passes_hard_checks_def split: if_splits)

lemma cancel_effect_entry:
  assumes "cancel_effect env c st maker order amount st' r"
    and "entry_nonzero st' h" "\<not> entry_nonzero st h"
  shows "getOrderHash env order = h \<and> makerAddress order = maker"
  using assms
  by (auto simp: cancel_effect_def entry_nonzero_def split: if_splits)

lemma apply_call_entry:
  assumes n: "entry_nonzero (apply_call env st cc) h" and z: "\<not> entry_nonzero st h"
  shows "presents_valid_signature env h cc \<or> cancel_by_maker env h cc"
proof (cases rule: apply_call_cases [of env st cc])
  case failed
  with n z show ?thesis by simp
next
  case (fill c order amount signature st' r)
  with n z fill_effect_entry [OF fill(3), of st h] show ?thesis
    by (simp add: presents_valid_signature_def)
next
  case (cancel c order amount st' r)
  with n z cancel_effect_entry [OF cancel(3), of h] show ?thesis
    by simp
next
  case (upTo c u st')
  with n z cancelOrdersUpTo_effect [OF upTo(3)] show ?thesis
    by (simp add: entry_nonzero_def)
next
  case (exec c txSalt signer data signature st')
  from executeTransaction_effect [OF exec(3)]
  consider "filled st' = filled st \<and> cancelled st' = cancelled st"
    | order' amount makerSignature r where
      "fill_args env (c, ExecuteTransaction txSalt signer data signature) = Some (order', makerSignature)"
      "fill_effect env c (st\<lparr>transactions := (transactions st)(keccak256 env txSalt data := True)\<rparr>)
                    signer order' amount makerSignature st' r"
    by blast
  then show ?thesis
  proof cases
    case 1
    with n z exec(2) show ?thesis by (simp add: entry_nonzero_def)
  next
    case 2
    from n z exec(2) fill_effect_entry [OF 2(2), of st h]
    have "getOrderHash env order' = h \<and> isValidSignature env h (makerAddress order') makerSignature"
      by simp
    with 2(1) exec(1) show ?thesis
      by (simp add: presents_valid_signature_def)
  qed
qed

lemma run_entry:
  "entry_nonzero (run env (empty_ledger t) cs) h \<Longrightarrow>
     list_ex (presents_valid_signature env h) cs \<or> list_ex (cancel_by_maker env h) cs"
proof (induction cs rule: rev_induct)
  case Nil
  then show ?case by (simp add: run_Nil entry_nonzero_def empty_ledger_def)
next
  case (snoc cc cs)
  show ?case
  proof (cases "entry_nonzero (run env (empty_ledger t) cs) h")
    case True
    with snoc.IH show ?thesis by auto
  next
    case False
    from snoc.prems have "entry_nonzero (apply_call env (run env (empty_ledger t) cs) cc) h"
      by (simp add: run_snoc)
    from this False have "presents_valid_signature env h cc \<or> cancel_by_maker env h cc"
      by (rule apply_call_entry)
    then show ?thesis by auto
  qed
qed

section \<open>Reading memory\<close>

text \<open>A word that is stored is the word that is loaded, and so is the length of a payload.\<close>

lemma byte_back: "(ucast (ucast (x :: uint256) :: 8 word) :: uint256) = take_bit 8 x"
  by (simp add: unsigned_ucast_eq)

lemma byte_step: "drop_bit 8 (x :: uint256) * 256 + take_bit 8 x = x"
  using bits_ident [of 8 x] by (simp add: push_bit_eq_mult)

lemma mload_prefix:
  "n \<le> 32 \<Longrightarrow>
     foldl (\<lambda>acc b. acc * 256 + ucast b) (0 :: uint256) (map (byte_of w) [0 ..< n])
       = drop_bit (8 * (32 - n)) w"
proof (induction n)
  case 0
  then show ?case by simp
next
  case (Suc n)
  then have n: "n < 32" by simp
  let ?x = "drop_bit (8 * (31 - n)) w"
  have e: "8 * (32 - n) = 8 + 8 * (31 - n)"
    using n by simp
  have d: "drop_bit (8 * (32 - n)) w = drop_bit 8 ?x"
    unfolding e by (simp add: add.commute)
  have "foldl (\<lambda>acc b. acc * 256 + ucast b) (0 :: uint256) (map (byte_of w) [0 ..< Suc n])
      = foldl (\<lambda>acc b. acc * 256 + ucast b) 0 (map (byte_of w) [0 ..< n]) * 256
        + ucast (byte_of w n)"
    by simp
  also have "\<dots> = drop_bit 8 ?x * 256 + take_bit 8 ?x"
  proof -
    have ih: "foldl (\<lambda>acc b. acc * 256 + ucast b) (0 :: uint256) (map (byte_of w) [0 ..< n])
        = drop_bit 8 ?x"
      using Suc.IH n d by simp
    have b: "(ucast (byte_of w n) :: uint256) = take_bit 8 ?x"
      by (simp add: byte_of_def byte_back)
    show ?thesis by (simp only: ih b)
  qed
  also have "\<dots> = ?x"
    by (rule byte_step)
  also have "31 - n = 32 - Suc n"
    by simp
  finally show ?case .
qed

lemma mstore_bytes: "map (mstore m p w) [p ..< p + 32] = map (byte_of w) [0 ..< 32]"
proof -
  have "map (mstore m p w) [p ..< p + 32] = map (\<lambda>a. byte_of w (a - p)) [p ..< p + 32]"
    by (intro map_cong) (auto simp: mstore_def)
  also have "\<dots> = map (byte_of w) (map (\<lambda>a. a - p) [p ..< p + 32])"
    by simp
  also have "map (\<lambda>a. a - p) [p ..< p + 32] = [0 ..< 32]"
    by (rule nth_equalityI) simp_all
  finally show ?thesis .
qed

lemma mload_mstore: "mload (mstore m p w) p = w"
  using mload_prefix [of 32 w] by (simp add: mload_def mstore_bytes)

lemma to_memory_length_bytes:
  "map (to_memory m p b) [p ..< p + 32] = map (byte_of (of_nat (length b))) [0 ..< 32]"
proof -
  have "map (to_memory m p b) [p ..< p + 32]
      = map (\<lambda>a. byte_of (of_nat (length b)) (a - p)) [p ..< p + 32]"
    by (intro map_cong) (auto simp: to_memory_def)
  also have "\<dots> = map (byte_of (of_nat (length b))) (map (\<lambda>a. a - p) [p ..< p + 32])"
    by simp
  also have "map (\<lambda>a. a - p) [p ..< p + 32] = [0 ..< 32]"
    by (rule nth_equalityI) simp_all
  finally show ?thesis .
qed

lemma mload_to_memory_length: "mload (to_memory m p b) p = of_nat (length b)"
  using mload_prefix [of 32 "of_nat (length b)"] by (simp add: mload_def to_memory_length_bytes)

text \<open>
  \<open>getFunctionSelector\<close> lets a payload through exactly when it has 32 bytes or more,
  so \<open>executeTransaction\<close> hands every payload of 32 to 483 bytes with the selector of
  \<open>fillOrder\<close> to \<open>getFillOrderArgs\<close>.
\<close>

lemma getFunctionSelector_length:
  assumes "length b < 2 ^ 256"
  shows "(\<exists>selector. getFunctionSelector (to_memory m p b) p = Inr selector) \<longleftrightarrow> 32 \<le> length b"
proof -
  have "unat (of_nat (length b) :: uint256) = length b"
    using assms by (simp add: unat_of_nat)
  then have "(32 :: uint256) \<le> of_nat (length b) \<longleftrightarrow> 32 \<le> length b"
    by (simp add: word_le_nat_alt)
  then show ?thesis
    by (auto simp: getFunctionSelector_def get4_def mload_to_memory_length Let_def)
qed

lemma mload_zero:
  assumes "\<And>a. p \<le> a \<Longrightarrow> a < p + 32 \<Longrightarrow> m a = 0"
  shows "mload m p = 0"
proof -
  have "map m [p ..< p + 32] = map (\<lambda>_. 0) [p ..< p + 32]"
    using assms by (intro map_cong) auto
  also have "\<dots> = replicate 32 0"
    by (simp add: map_replicate_const)
  finally have "map m [p ..< p + 32] = replicate 32 0" .
  moreover have "foldl (\<lambda>acc b. acc * 256 + ucast b) (0 :: uint256) (replicate n (0 :: 8 word)) = 0" for n
    by (induction n) simp_all
  ultimately show ?thesis by (simp add: mload_def)
qed

lemma mload_mstore_other:
  assumes "p + 32 \<le> q \<or> q + 32 \<le> p"
  shows "mload (mstore m q w) p = mload m p"
proof -
  have "map (mstore m q w) [p ..< p + 32] = map m [p ..< p + 32]"
    using assms by (intro map_cong) (auto simp: mstore_def)
  then show ?thesis by (simp only: mload_def)
qed

text \<open>
  \<open>getFillOrderArgs\<close> one load and one store at a time: \<open>v1\<close> to \<open>v12\<close> are the words
  loaded for the twelve fields, \<open>m1\<close> to \<open>m12\<close> the memories after their stores.
\<close>

lemma getFillOrderArgs_steps:
  assumes "data + 36 = start" and "data + 484 = sigStart"
    and
    "mload m0 start = v1"
    and "mstore m0 order v1 = m1"
    and "mload m1 (start + 32) = v2"
    and "mstore m1 (order + 32) v2 = m2"
    and "mload m2 (start + 64) = v3"
    and "mstore m2 (order + 64) v3 = m3"
    and "mload m3 (start + 96) = v4"
    and "mstore m3 (order + 96) v4 = m4"
    and "mload m4 (start + 128) = v5"
    and "mstore m4 (order + 128) v5 = m5"
    and "mload m5 (start + 160) = v6"
    and "mstore m5 (order + 160) v6 = m6"
    and "mload m6 (start + 192) = v7"
    and "mstore m6 (order + 192) v7 = m7"
    and "mload m7 (start + 224) = v8"
    and "mstore m7 (order + 224) v8 = m8"
    and "mload m8 (start + 256) = v9"
    and "mstore m8 (order + 256) v9 = m9"
    and "mload m9 (start + 288) = v10"
    and "mstore m9 (order + 288) v10 = m10"
    and "mload m10 (start + 320) = v11"
    and "mstore m10 (order + 320) v11 = m11"
    and "mload m11 (start + 352) = v12"
    and "mstore m11 (order + 352) v12 = m12"
    and "mload m12 (start + 384) = takerTokenFillAmount"
    and "mload m12 (start + 448) = sigLen"
    and "copy_signature sigStart signature (unat (sigLen + 32)) 0
         (new_bytes m12 signature sigLen) = m14"
  shows "getFillOrderArgs m0 data order signature =
           (order_at m14 order, takerTokenFillAmount, from_memory m14 signature)"
  unfolding getFillOrderArgs_def Let_def
  by (simp only: assms)

lemmas mem_eval = mload_def mstore_def to_memory_def byte_of_def short_payload_def upt_rec

lemma len32: "mload (to_memory (\<lambda>_. 0) 128 unsupported_payload) 128 = 32"
  by (simp add: mload_to_memory_length unsupported_payload_def)

lemma sel0: "getFunctionSelector (to_memory (\<lambda>_. 0) 128 unsupported_payload) 128 = Inr 0"
proof -
  have "mload (to_memory (\<lambda>_. 0) 128 unsupported_payload) 160 = 0"
    by (rule mload_zero) (simp add: to_memory_def unsupported_payload_def)
  then show ?thesis
    by (simp add: getFunctionSelector_def get4_def len32)
qed

section \<open>The claims\<close>

lemmas demo_defs = demo_env_def rejecting_env_def demo_order_def call_at_def
  partial_amount_def fillOrder_def fillOrderInternal_def cancelOrder_def
  cancelOrderInternal_def getUnavailableTakerTokenAmount_def safeAdd_def safeSub_def
  safeMul_def safeDiv_def min256_def isRoundingError_def mulmod_def emit_def
  empty_ledger_def

subsection \<open>C1: the ledger never exceeds the taker amount\<close>

text \<open>
  Claim C1. For every order and every sequence of calls starting from the empty ledger,
  \<open>filled[orderHash] + cancelled[orderHash]\<close>, taken without wrap-around, never exceeds
  \<open>order.takerTokenAmount\<close>. The sequence may hold all four external functions, in any
  context and with any arguments; failing calls change nothing. The ledger is keyed by
  the hash alone, so the statement is about sequences without a hash collision that
  matters: every order of the sequence with the hash of \<open>order\<close> has its taker amount.
  Each fill and each cancel adds at most the requested amount and at most what is left
  (\<open>fill_effect\<close>, \<open>cancel_effect\<close>).
\<close>

theorem ledger_within_takerTokenAmount:
  assumes "list_all (agrees_on_hash env order) cs"
  shows "unat (filled (run env (empty_ledger t) cs) (getOrderHash env order))
         + unat (cancelled (run env (empty_ledger t) cs) (getOrderHash env order))
         \<le> unat (takerTokenAmount order)"
proof -
  have "within_amount (empty_ledger t) (getOrderHash env order) (takerTokenAmount order)"
    by (simp add: within_amount_def empty_ledger_def)
  with assms have "within_amount (run env (empty_ledger t) cs)
      (getOrderHash env order) (takerTokenAmount order)"
    by (rule run_within)
  then show ?thesis by (simp add: within_amount_def)
qed

text \<open>
  A fill of 50, a cancel of 30 by the maker and a fill of 200 on the order of 100: the
  last fill is cut down to the 20 that are left.
\<close>

theorem ledger_within_takerTokenAmount_witness:
  "list_all (agrees_on_hash demo_env demo_order) demo_calls
   \<and> filled (run demo_env (empty_ledger ()) demo_calls) (getOrderHash demo_env demo_order) = 70
   \<and> cancelled (run demo_env (empty_ledger ()) demo_calls) (getOrderHash demo_env demo_order) = 30
   \<and> unat (filled (run demo_env (empty_ledger ()) demo_calls) (getOrderHash demo_env demo_order))
      + unat (cancelled (run demo_env (empty_ledger ()) demo_calls) (getOrderHash demo_env demo_order))
      \<le> unat (takerTokenAmount demo_order)"
proof -
  have h: "list_all (agrees_on_hash demo_env demo_order) demo_calls"
    by (simp add: demo_calls_def agrees_on_hash_def)
  have f: "filled (run demo_env (empty_ledger ()) demo_calls) (getOrderHash demo_env demo_order) = 70"
    by (simp add: demo_calls_def run_def apply_call_def demo_defs)
  have c: "cancelled (run demo_env (empty_ledger ()) demo_calls) (getOrderHash demo_env demo_order) = 30"
    by (simp add: demo_calls_def run_def apply_call_def demo_defs)
  from h f c ledger_within_takerTokenAmount [OF h, of "()"] show ?thesis
    by blast
qed

text \<open>
  The hypothesis cannot be dropped. Where the hash is the salt, an order of 10 with the
  salt of the order of 100 shares its ledger entry, and after the three calls that entry
  stands at 100, above 10.
\<close>

lemma colliding_order_exceeds:
  "getOrderHash demo_env (demo_order\<lparr>takerTokenAmount := 10\<rparr>) = getOrderHash demo_env demo_order
   \<and> \<not> within_amount (run demo_env (empty_ledger ()) demo_calls)
         (getOrderHash demo_env (demo_order\<lparr>takerTokenAmount := 10\<rparr>)) 10"
  by (simp add: within_amount_def demo_calls_def run_def apply_call_def demo_defs)

subsection \<open>C2: what a ledger entry proves\<close>

text \<open>
  Claim C2, as amended. In every state reached from the empty ledger, a non-zero ledger
  entry for a hash (\<open>filled > 0\<close> or \<open>cancelled > 0\<close>), which is what makes \<open>fillOrder\<close>
  skip the signature check, proves that an earlier call either was a fill that presented
  a signature the validator accepts for the maker over that hash, or was a
  \<open>cancelOrder\<close> of an order with that hash sent by its maker. A cancel creates the
  entry without any signature.
\<close>

theorem ledger_entry_origin:
  assumes "entry_nonzero (run env (empty_ledger t) cs) h"
  shows "list_ex (presents_valid_signature env h) cs \<or> list_ex (cancel_by_maker env h) cs"
  using assms by (rule run_entry)

theorem ledger_entry_origin_witness:
  "entry_nonzero (run demo_env (empty_ledger ()) demo_calls) 7
   \<and> (list_ex (presents_valid_signature demo_env 7) demo_calls
      \<or> list_ex (cancel_by_maker demo_env 7) demo_calls)"
proof -
  have "filled (run demo_env (empty_ledger ()) demo_calls) 7 = 70"
    by (simp add: demo_calls_def run_def apply_call_def demo_defs)
  then have n: "entry_nonzero (run demo_env (empty_ledger ()) demo_calls) 7"
    by (simp add: entry_nonzero_def)
  from n ledger_entry_origin [OF n] show ?thesis
    by blast
qed

text \<open>
  The claim as stated fails: with a validator that accepts no signature, the maker
  cancels 30 of the order, which makes the ledger entry non-zero; no call has presented
  a valid signature, and none can; and the next \<open>fillOrder\<close>, by another account with
  an empty signature, skips the check and fills 50.
\<close>

theorem ledger_entry_without_signature:
  "cancelled (run rejecting_env (empty_ledger ()) maker_cancels)
      (getOrderHash rejecting_env demo_order) = 30
   \<and> \<not> list_ex (presents_valid_signature rejecting_env (getOrderHash rejecting_env demo_order))
         (maker_cancels @ [(call_at 2 6, FillOrder demo_order 50 [])])
   \<and> map_sum id snd (fillOrder rejecting_env (call_at 2 6)
         (run rejecting_env (empty_ledger ()) maker_cancels) demo_order 50 []) = Inr 50"
  by (simp add: maker_cancels_def run_def apply_call_def presents_valid_signature_def demo_defs)

subsection \<open>C3: the decoder and short payloads\<close>

text \<open>
  Claim C3 asks \<open>getFillOrderArgs\<close> to fail on every payload shorter than the 484 bytes
  of selector, twelve order fields, fill amount, signature offset and signature length.
  The function has no failure at all: it never reads the length of its argument. Take
  the payload of 36 bytes that holds the selector and one word of value 5, copied to
  address 128 of a fresh memory, the decoded order placed right behind it. The length
  check of \<open>getFunctionSelector\<close> passes, and \<open>getFillOrderArgs\<close> returns an order, an
  amount and a signature: the first field is the word of the payload, every other one
  is read past its end, where the loads meet the fields stored just before. Its sibling
  \<open>get4\<close> does check the length before it reads.
\<close>

theorem getFillOrderArgs_short_payload:
  "length short_payload = 36
   \<and> getFunctionSelector (to_memory (\<lambda>_. 0) 128 short_payload) 128 = Inr 1
   \<and> getFillOrderArgs (to_memory (\<lambda>_. 0) 128 short_payload) 128 224 608 =
       (\<lparr>senderAddress = 5, makerAddress = 0, takerAddress = 5 * 2 ^ 32,
         makerTokenAddress = 0, takerTokenAddress = 5 * 2 ^ 64, feeRecipientAddress = 0,
         makerTokenAmount = 5 * 2 ^ 96, takerTokenAmount = 0, makerFeeAmount = 5 * 2 ^ 128,
         takerFeeAmount = 0, expirationTimeSeconds = 5 * 2 ^ 160, salt = 0\<rparr>,
        5 * 2 ^ 192, [])"
proof -
  define m0 where "m0 = to_memory (\<lambda>_. 0) 128 short_payload"
  define m1 where "m1 = mstore m0 224 (5)"
  define m2 where "m2 = mstore m1 256 (0)"
  define m3 where "m3 = mstore m2 288 (5 * 2 ^ 32)"
  define m4 where "m4 = mstore m3 320 (0)"
  define m5 where "m5 = mstore m4 352 (5 * 2 ^ 64)"
  define m6 where "m6 = mstore m5 384 (0)"
  define m7 where "m7 = mstore m6 416 (5 * 2 ^ 96)"
  define m8 where "m8 = mstore m7 448 (0)"
  define m9 where "m9 = mstore m8 480 (5 * 2 ^ 128)"
  define m10 where "m10 = mstore m9 512 (0)"
  define m11 where "m11 = mstore m10 544 (5 * 2 ^ 160)"
  define m12 where "m12 = mstore m11 576 (0)"
  note mems = m12_def m11_def m10_def m9_def m8_def m7_def m6_def m5_def m4_def m3_def m2_def m1_def m0_def
  have len: "length short_payload = 36"
    by (simp add: short_payload_def)
  have sel: "getFunctionSelector m0 128 = Inr 1"
    by (simp add: getFunctionSelector_def get4_def m0_def mload_to_memory_length len)
      (simp add: mem_eval)
  have a: "128 + 36 = (164 :: nat)" "128 + 484 = (612 :: nat)"
    by simp_all
  have r1: "mload m0 164 = 5"
    by (simp add: m0_def mem_eval)
  have w1: "mstore m0 224 5 = m1"
    by (simp add: m1_def)
  have r2: "mload m1 (164 + 32) = 0"
    by (simp add: m1_def m0_def mem_eval)
  have w2: "mstore m1 (224 + 32) (0) = m2"
    by (simp add: m2_def)
  have r3: "mload m2 (164 + 64) = 5 * 2 ^ 32"
    by (simp add: m2_def m1_def m0_def mem_eval)
  have w3: "mstore m2 (224 + 64) (5 * 2 ^ 32) = m3"
    by (simp add: m3_def)
  have r4: "mload m3 (164 + 96) = 0"
    by (simp add: m3_def m2_def m1_def m0_def mem_eval)
  have w4: "mstore m3 (224 + 96) (0) = m4"
    by (simp add: m4_def)
  have r5: "mload m4 (164 + 128) = 5 * 2 ^ 64"
    by (simp add: m4_def m3_def m2_def m1_def m0_def mem_eval)
  have w5: "mstore m4 (224 + 128) (5 * 2 ^ 64) = m5"
    by (simp add: m5_def)
  have r6: "mload m5 (164 + 160) = 0"
    by (simp add: m5_def m4_def m3_def m2_def m1_def m0_def mem_eval)
  have w6: "mstore m5 (224 + 160) (0) = m6"
    by (simp add: m6_def)
  have r7: "mload m6 (164 + 192) = 5 * 2 ^ 96"
    by (simp add: m6_def m5_def m4_def m3_def m2_def m1_def m0_def mem_eval)
  have w7: "mstore m6 (224 + 192) (5 * 2 ^ 96) = m7"
    by (simp add: m7_def)
  have r8: "mload m7 (164 + 224) = 0"
    by (simp add: m7_def m6_def m5_def m4_def m3_def m2_def m1_def m0_def mem_eval)
  have w8: "mstore m7 (224 + 224) (0) = m8"
    by (simp add: m8_def)
  have r9: "mload m8 (164 + 256) = 5 * 2 ^ 128"
    by (simp add: m8_def m7_def m6_def m5_def m4_def m3_def m2_def m1_def m0_def mem_eval)
  have w9: "mstore m8 (224 + 256) (5 * 2 ^ 128) = m9"
    by (simp add: m9_def)
  have r10: "mload m9 (164 + 288) = 0"
    by (simp add: m9_def m8_def m7_def m6_def m5_def m4_def m3_def m2_def m1_def m0_def mem_eval)
  have w10: "mstore m9 (224 + 288) (0) = m10"
    by (simp add: m10_def)
  have r11: "mload m10 (164 + 320) = 5 * 2 ^ 160"
    by (simp add: m10_def m9_def m8_def m7_def m6_def m5_def m4_def m3_def m2_def m1_def m0_def mem_eval)
  have w11: "mstore m10 (224 + 320) (5 * 2 ^ 160) = m11"
    by (simp add: m11_def)
  have r12: "mload m11 (164 + 352) = 0"
    by (simp add: m11_def m10_def m9_def m8_def m7_def m6_def m5_def m4_def m3_def m2_def m1_def m0_def mem_eval)
  have w12: "mstore m11 (224 + 352) (0) = m12"
    by (simp add: m12_def)
  have fill: "mload m12 (164 + 384) = 5 * 2 ^ 192"
    by (simp add: mems mem_eval)
  have sigLen: "mload m12 (164 + 448) = 0"
    by (simp add: mems mem_eval)
  have copy: "copy_signature 612 608 (unat (0 + 32 :: uint256)) 0 (new_bytes m12 608 0) = m12"
  proof -
    have n: "new_bytes m12 608 0 = m12"
      by (rule ext) (simp add: new_bytes_def mems mem_eval)
    have "mload m12 612 = 0"
      using sigLen by simp
    moreover have "mstore m12 608 0 = m12"
      by (rule ext) (simp add: mems mem_eval)
    ultimately show ?thesis by (simp add: n)
  qed
  have sig: "from_memory m12 608 = []"
  proof -
    have "mload m12 608 = 0"
      by (simp add: mems mem_eval)
    then show ?thesis by (simp add: from_memory_def)
  qed
  have o1: "mload m12 (224 + 0) = 5"
    by (simp add: mems mload_mstore mload_mstore_other)
  have o2: "mload m12 (224 + 32) = 0"
    by (simp add: mems mload_mstore mload_mstore_other)
  have o3: "mload m12 (224 + 64) = 5 * 2 ^ 32"
    by (simp add: mems mload_mstore mload_mstore_other)
  have o4: "mload m12 (224 + 96) = 0"
    by (simp add: mems mload_mstore mload_mstore_other)
  have o5: "mload m12 (224 + 128) = 5 * 2 ^ 64"
    by (simp add: mems mload_mstore mload_mstore_other)
  have o6: "mload m12 (224 + 160) = 0"
    by (simp add: mems mload_mstore mload_mstore_other)
  have o7: "mload m12 (224 + 192) = 5 * 2 ^ 96"
    by (simp add: mems mload_mstore mload_mstore_other)
  have o8: "mload m12 (224 + 224) = 0"
    by (simp add: mems mload_mstore mload_mstore_other)
  have o9: "mload m12 (224 + 256) = 5 * 2 ^ 128"
    by (simp add: mems mload_mstore mload_mstore_other)
  have o10: "mload m12 (224 + 288) = 0"
    by (simp add: mems mload_mstore mload_mstore_other)
  have o11: "mload m12 (224 + 320) = 5 * 2 ^ 160"
    by (simp add: mems mload_mstore mload_mstore_other)
  have o12: "mload m12 (224 + 352) = 0"
    by (simp add: mems mload_mstore mload_mstore_other)
  have "getFillOrderArgs m0 128 224 608 = (order_at m12 224, 5 * 2 ^ 192, from_memory m12 608)"
    by (rule getFillOrderArgs_steps
        [OF a r1 w1 r2 w2 r3 w3 r4 w4 r5 w5 r6 w6 r7 w7 r8 w8 r9 w9 r10 w10 r11 w11 r12 w12 fill sigLen copy])
  then have "getFillOrderArgs m0 128 224 608 =
       (\<lparr>senderAddress = 5, makerAddress = 0, takerAddress = 5 * 2 ^ 32,
         makerTokenAddress = 0, takerTokenAddress = 5 * 2 ^ 64, feeRecipientAddress = 0,
         makerTokenAmount = 5 * 2 ^ 96, takerTokenAmount = 0, makerFeeAmount = 5 * 2 ^ 128,
         takerFeeAmount = 0, expirationTimeSeconds = 5 * 2 ^ 160, salt = 0\<rparr>,
        5 * 2 ^ 192, [])"
    using o1 o2 o3 o4 o5 o6 o7 o8 o9 o10 o11 o12 by (simp add: sig order_at_def)
  with len sel show ?thesis
    by (simp add: m0_def)
qed

subsection \<open>C4: the signature check of the client library\<close>

text \<open>
  Claim C4, as amended. When the three argument assertions hold (\<open>dataHex\<close> is a hex
  string, the signature conforms to the schema, \<open>signerAddressHex\<close> is an address),
  \<open>isValidSignature\<close> returns a boolean and throws nothing: \<open>false\<close> when recovery
  fails or the recovered address differs from the expected signer, \<open>true\<close> when they
  agree. When one of the assertions fails, which is what malformed signature material
  does, the function throws.
\<close>

theorem isValidSignature_after_assertions:
  "(isHexString lib dataHex \<and> doesConformToSchema lib signature
      \<and> isETHAddressHex lib signerAddressHex \<longrightarrow>
     ZeroEx_isValidSignature lib dataHex signature signerAddressHex =
       Inr (case ecrecover lib (hashPersonalMessage lib (toBuffer lib dataHex))
                   (ecsig_v signature) (toBuffer lib (ecsig_r signature))
                   (toBuffer lib (ecsig_s signature)) of
              None \<Rightarrow> False
            | Some pubKey \<Rightarrow>
               (case pubToAddress lib pubKey of
                  None \<Rightarrow> False
                | Some addressBuff \<Rightarrow> bufferToHex lib addressBuff = signerAddressHex)))
   \<and> (\<not> (isHexString lib dataHex \<and> doesConformToSchema lib signature
          \<and> isETHAddressHex lib signerAddressHex) \<longrightarrow>
       ZeroEx_isValidSignature lib dataHex signature signerAddressHex = Inl AssertionError)"
  by (auto simp: ZeroEx_isValidSignature_def Let_def split: option.splits)

text \<open>A well-formed signature that recovers no key, and an ill-formed data string.\<close>

theorem isValidSignature_after_assertions_witness:
  "isHexString demo_lib ''0x00''
   \<and> doesConformToSchema demo_lib \<lparr>ecsig_v = 28, ecsig_r = ''0x01'', ecsig_s = ''0x02''\<rparr>
   \<and> isETHAddressHex demo_lib ''0x01''
   \<and> ZeroEx_isValidSignature demo_lib ''0x00''
        \<lparr>ecsig_v = 28, ecsig_r = ''0x01'', ecsig_s = ''0x02''\<rparr> ''0x01'' = Inr False
   \<and> \<not> isHexString demo_lib ''zz''
   \<and> ZeroEx_isValidSignature demo_lib ''zz''
        \<lparr>ecsig_v = 28, ecsig_r = ''0x01'', ecsig_s = ''0x02''\<rparr> ''0x01'' = Inl AssertionError"
  using isValidSignature_after_assertions [of demo_lib "''0x00''"
      "\<lparr>ecsig_v = 28, ecsig_r = ''0x01'', ecsig_s = ''0x02''\<rparr>" "''0x01''"]
    isValidSignature_after_assertions [of demo_lib "''zz''"
      "\<lparr>ecsig_v = 28, ecsig_r = ''0x01'', ecsig_s = ''0x02''\<rparr>" "''0x01''"]
  by (simp add: demo_lib_def)

text \<open>
  The claim as stated fails: a signature whose \<open>v\<close> is 0 does not conform to the
  schema, and the call throws instead of returning \<open>false\<close>.
\<close>

theorem isValidSignature_throws:
  "ZeroEx_isValidSignature demo_lib ''0x00''
     \<lparr>ecsig_v = 0, ecsig_r = ''0x01'', ecsig_s = ''0x02''\<rparr> ''0x01'' = Inl AssertionError"
  by (simp add: ZeroEx_isValidSignature_def demo_lib_def)

subsection \<open>C5: a meta-transaction runs once\<close>

text \<open>
  Claim C5. Once \<open>executeTransaction\<close> has succeeded for \<open>(salt, data)\<close>, a second call
  with the same salt and data fails at the replay check, whatever calls have run in
  between, in whatever context it is made and whatever signer and signature it
  names: it reverts, so the executed transactions, the ledger and the maker epochs
  stay as they are and nothing is settled.
\<close>

theorem executeTransaction_replay:
  assumes "executeTransaction env c st txSalt signer data signature = Inr st1"
  shows "executeTransaction env c' (run env st1 cs) txSalt signer' data signature' = Inl Revert
       \<and> apply_call env (run env st1 cs) (c', ExecuteTransaction txSalt signer' data signature')
           = run env st1 cs"
proof -
  have "transactions st1 (keccak256 env txSalt data)"
    using executeTransaction_effect [OF assms] by simp
  then have "transactions (run env st1 cs) (keccak256 env txSalt data)"
    by (rule run_transactions)
  then have "executeTransaction env c' (run env st1 cs) txSalt signer' data signature'
      = Inl Revert"
    by (rule executeTransaction_replayed)
  then show ?thesis by (simp add: apply_call_def)
qed

text \<open>
  A transaction with an unsupported payload is accepted and marked; after three more
  calls the same transaction is refused.
\<close>

theorem executeTransaction_replay_witness:
  "executeTransaction demo_env (call_at 3 5) (empty_ledger ()) 9 2 unsupported_payload [1]
     = Inr ((empty_ledger ())\<lparr>transactions := (\<lambda>_. False)(9 := True)\<rparr>)
   \<and> executeTransaction demo_env (call_at 4 8)
        (run demo_env ((empty_ledger ())\<lparr>transactions := (\<lambda>_. False)(9 := True)\<rparr>) demo_calls)
        9 2 unsupported_payload [1] = Inl Revert"
proof -
  have e: "executeTransaction demo_env (call_at 3 5) (empty_ledger ()) 9 2 unsupported_payload [1]
     = Inr ((empty_ledger ())\<lparr>transactions := (\<lambda>_. False)(9 := True)\<rparr>)"
    by (simp add: executeTransaction_def demo_env_def call_at_def sel0 empty_ledger_def)
  from e executeTransaction_replay [OF e, of "call_at 4 8" demo_calls 2 "[1]"] show ?thesis
    by blast
qed

subsection \<open>C6: cancelling up to a salt\<close>

text \<open>
  Claim C6. For every caller and salt, \<open>cancelOrdersUpTo(salt)\<close> sets the caller's
  epoch to \<open>salt + 1\<close> and emits \<open>CancelUpTo\<close> when \<open>salt + 1\<close> is strictly greater than
  the current epoch, and reverts otherwise; and a second call by the same caller with
  the same salt fails, whether the first one succeeded or not. The sum \<open>salt + 1\<close> is
  the contract's \<open>uint256\<close> sum: for the largest salt it is 0, never greater than an
  epoch, and the call fails.
\<close>

theorem cancelOrdersUpTo_epoch:
  "cancelOrdersUpTo c st upTo =
     (if makerEpoch st (msg_sender c) < upTo + 1
      then Inr (st\<lparr>makerEpoch := (makerEpoch st)(msg_sender c := upTo + 1),
                  logs := logs st @ [CancelUpTo (msg_sender c) (upTo + 1)]\<rparr>)
      else Inl Revert)
   \<and> cancelOrdersUpTo c (case cancelOrdersUpTo c st upTo of Inl e \<Rightarrow> st | Inr st' \<Rightarrow> st') upTo
       = Inl Revert"
  by (auto simp: cancelOrdersUpTo_def emit_def Let_def split: if_splits)

theorem cancelOrdersUpTo_epoch_witness:
  "cancelOrdersUpTo (call_at 1 5) (empty_ledger ()) 7 =
     Inr ((empty_ledger ())\<lparr>makerEpoch := (\<lambda>_. 0)(1 := 8), logs := [CancelUpTo 1 8]\<rparr>)
   \<and> cancelOrdersUpTo (call_at 1 5)
       ((empty_ledger ())\<lparr>makerEpoch := (\<lambda>_. 0)(1 := 8), logs := [CancelUpTo 1 8]\<rparr>) 7
      = Inl Revert"
proof -
  note t = cancelOrdersUpTo_epoch [of "call_at 1 5" "empty_ledger ()" 7]
  have a: "cancelOrdersUpTo (call_at 1 5) (empty_ledger ()) 7 =
     Inr ((empty_ledger ())\<lparr>makerEpoch := (\<lambda>_. 0)(1 := 8), logs := [CancelUpTo 1 8]\<rparr>)"
    using t [THEN conjunct1] by (simp add: call_at_def empty_ledger_def)
  from t [THEN conjunct2] have "cancelOrdersUpTo (call_at 1 5)
       ((empty_ledger ())\<lparr>makerEpoch := (\<lambda>_. 0)(1 := 8), logs := [CancelUpTo 1 8]\<rparr>) 7
      = Inl Revert"
    unfolding a by simp
  with a show ?thesis by blast
qed

subsection \<open>C7: the rounding guard\<close>




subsection \<open>C8: an expired order\<close>

text \<open>
  Claim C8. For every order whose \<open>expirationTimeSeconds\<close> is at most the current time,
  a \<open>fillOrder\<close> call that passes the earlier checks (validation on first reference,
  sender and taker, a fill amount above zero) returns 0 and emits \<open>ORDER_EXPIRED\<close>;
  the state after the call is the state before it with that one event added, so the
  \<open>filled\<close> and \<open>cancelled\<close> counters are unchanged.
\<close>

theorem fillOrder_expired:
  assumes "passes_hard_checks env c st (msg_sender c) order amount signature"
    and "expirationTimeSeconds order \<le> block_timestamp c"
  shows "fillOrder env c st order amount signature =
           Inr (st\<lparr>logs := logs st @ [ExchangeError ORDER_EXPIRED (getOrderHash env order)]\<rparr>, 0)"
  using assms
  by (auto simp: fillOrder_def fillOrderInternal_def passes_hard_checks_def emit_def Let_def)

theorem fillOrder_expired_witness:
  "passes_hard_checks demo_env (call_at 2 1000) (empty_ledger ())
       (msg_sender (call_at 2 1000)) demo_order 50 [1]
   \<and> expirationTimeSeconds demo_order \<le> block_timestamp (call_at 2 1000)
   \<and> fillOrder demo_env (call_at 2 1000) (empty_ledger ()) demo_order 50 [1] =
       Inr ((empty_ledger ())\<lparr>logs := [ExchangeError ORDER_EXPIRED 7]\<rparr>, 0)"
proof -
  have p: "passes_hard_checks demo_env (call_at 2 1000) (empty_ledger ())
       (msg_sender (call_at 2 1000)) demo_order 50 [1]"
    by (simp add: passes_hard_checks_def demo_env_def demo_order_def call_at_def empty_ledger_def)
  have x: "expirationTimeSeconds demo_order \<le> block_timestamp (call_at 2 1000)"
    by (simp add: demo_order_def call_at_def)
  from p x fillOrder_expired [OF p x] show ?thesis
    by (simp add: demo_env_def demo_order_def empty_ledger_def)
qed

subsection \<open>C9: an exhausted order\<close>

text \<open>
  Claim C9. For every order that is fully filled (\<open>filled + cancelled\<close> equals
  \<open>takerTokenAmount\<close>), a further \<open>fillOrder\<close> call with a fill amount above zero that
  passes the checks before the availability test and is not expired returns 0, emits
  \<open>ORDER_FULLY_FILLED_OR_CANCELLED\<close> and leaves the ledger entry as it was. (An order
  with taker amount 0 that has never been referenced does not pass: the validation on
  first reference rejects it.)
\<close>

theorem fillOrder_exhausted:
  assumes "unat (filled st (getOrderHash env order)) + unat (cancelled st (getOrderHash env order))
             = unat (takerTokenAmount order)"
    and "passes_hard_checks env c st (msg_sender c) order amount signature"
    and "block_timestamp c < expirationTimeSeconds order"
  shows "fillOrder env c st order amount signature =
           Inr (st\<lparr>logs := logs st @
                  [ExchangeError ORDER_FULLY_FILLED_OR_CANCELLED (getOrderHash env order)]\<rparr>, 0)"
proof -
  let ?h = "getOrderHash env order"
  have lt: "unat (filled st ?h) + unat (cancelled st ?h) < 2 ^ 256"
    using assms(1) unsigned_less [of "takerTokenAmount order"] by simp
  then have u: "getUnavailableTakerTokenAmount st ?h = Inr (filled st ?h + cancelled st ?h)"
    by (simp add: getUnavailableTakerTokenAmount_def safeAdd_def)
  have "unat (filled st ?h + cancelled st ?h) = unat (takerTokenAmount order)"
    using lt assms(1) unat_add_lem [of "filled st ?h" "cancelled st ?h"] by simp
  then have eq: "filled st ?h + cancelled st ?h = takerTokenAmount order"
    by (simp add: word_unat_eq_iff)
  have s: "safeSub (takerTokenAmount order) (filled st ?h + cancelled st ?h) = Inr 0"
    by (simp add: safeSub_def eq)
  have m: "min256 amount 0 = 0"
    by (simp add: min256_def)
  have first: "\<not> (filled st ?h = 0 \<and> cancelled st ?h = 0
         \<and> \<not> (makerTokenAmount order > 0 \<and> takerTokenAmount order > 0
                \<and> isValidSignature env ?h (makerAddress order) signature))"
    using assms(2) by (auto simp: passes_hard_checks_def)
  have rest: "\<not> (senderAddress order \<noteq> 0 \<and> \<not> senderAddress order = msg_sender c)"
    "\<not> (takerAddress order \<noteq> 0 \<and> \<not> takerAddress order = msg_sender c)"
    "amount > 0" "\<not> block_timestamp c \<ge> expirationTimeSeconds order"
    using assms(2,3) by (auto simp: passes_hard_checks_def)
  show ?thesis
    unfolding fillOrder_def fillOrderInternal_def Let_def
    using first rest by (simp add: u s m emit_def)
qed

text \<open>The order of 100 with 70 filled and 30 cancelled; the signature is not looked at.\<close>

theorem fillOrder_exhausted_witness:
  "unat (filled filled_up (getOrderHash demo_env demo_order))
     + unat (cancelled filled_up (getOrderHash demo_env demo_order))
     = unat (takerTokenAmount demo_order)
   \<and> passes_hard_checks demo_env (call_at 2 8) filled_up (msg_sender (call_at 2 8)) demo_order 5 []
   \<and> block_timestamp (call_at 2 8) < expirationTimeSeconds demo_order
   \<and> fillOrder demo_env (call_at 2 8) filled_up demo_order 5 [] =
       Inr (filled_up\<lparr>logs := [ExchangeError ORDER_FULLY_FILLED_OR_CANCELLED 7]\<rparr>, 0)"
proof -
  have a: "unat (filled filled_up (getOrderHash demo_env demo_order))
     + unat (cancelled filled_up (getOrderHash demo_env demo_order))
     = unat (takerTokenAmount demo_order)"
    by (simp add: filled_up_def demo_env_def demo_order_def empty_ledger_def)
  have p: "passes_hard_checks demo_env (call_at 2 8) filled_up (msg_sender (call_at 2 8))
      demo_order 5 []"
    by (simp add: passes_hard_checks_def filled_up_def demo_env_def demo_order_def
        call_at_def empty_ledger_def)
  have x: "block_timestamp (call_at 2 8) < expirationTimeSeconds demo_order"
    by (simp add: demo_order_def call_at_def)
  from a p x fillOrder_exhausted [OF a p x] show ?thesis
    by (simp add: filled_up_def demo_env_def demo_order_def empty_ledger_def)
qed

subsection \<open>C10: no division by zero in the rounding guard\<close>

text \<open>
  Claim C10, as amended. The division of \<open>isRoundingError\<close> never divides by zero: for a
  denominator other than zero, if the numerator or the target is 0, the remainder is 0
  and the function returns \<open>false\<close> before the division; and whenever the remainder is
  not zero, a product \<open>numerator * target\<close> that the checked multiplication delivers is
  not zero and the division succeeds. The function is not total, though: it aborts
  when the denominator is 0, in the built-in \<open>mulmod\<close>, and when the remainder is not
  zero and one of its two checked multiplications overflows; in every other case it
  returns a boolean.
\<close>

theorem isRoundingError_no_zero_division:
  "(denominator \<noteq> 0 \<and> (numerator = 0 \<or> target = 0) \<longrightarrow>
      mulmod target numerator denominator = Inr 0
      \<and> isRoundingError numerator denominator target = Inr False)
   \<and> (mulmod target numerator denominator = Inr remainder \<longrightarrow> remainder \<noteq> 0 \<longrightarrow>
        safeMul numerator target = Inr product \<longrightarrow>
          product \<noteq> 0 \<and> safeDiv scaled product = Inr (scaled div product))
   \<and> (isRoundingError numerator denominator target = Inl e \<longleftrightarrow>
        e = AssertFailed
        \<and> (denominator = 0
            \<or> (unat target * unat numerator) mod unat denominator \<noteq> 0
              \<and> (2 ^ 256 \<le> (unat target * unat numerator) mod unat denominator * 1000000
                  \<or> 2 ^ 256 \<le> unat numerator * unat target)))"
proof (intro conjI impI)
  assume z: "denominator \<noteq> 0 \<and> (numerator = 0 \<or> target = 0)"
  then show m0: "mulmod target numerator denominator = Inr 0"
    by (auto simp: mulmod_def)
  then show "isRoundingError numerator denominator target = Inr False"
    by (simp add: isRoundingError_def)
next
  assume m: "mulmod target numerator denominator = Inr remainder"
    and nz: "remainder \<noteq> 0"
    and p: "safeMul numerator target = Inr product"
  from m have d: "denominator \<noteq> 0"
    by (auto simp: mulmod_def split: if_splits)
  then obtain r where "mulmod target numerator denominator = Inr r"
    and "unat r = (unat target * unat numerator) mod unat denominator"
    by (rule mulmod_Inr)
  with m have "unat remainder = (unat target * unat numerator) mod unat denominator"
    by simp
  with nz have "(unat target * unat numerator) mod unat denominator \<noteq> 0"
    by (metis unat_eq_0)
  then have "unat target * unat numerator \<noteq> 0"
    by (metis mod_0)
  then have n0: "unat numerator * unat target \<noteq> 0"
    by (simp add: mult.commute)
  from p have "unat numerator * unat target < 2 ^ 256" "product = numerator * target"
    by (auto simp: safeMul_def split: if_splits)
  then have "unat product = unat numerator * unat target"
    using safeMul_Inr [of numerator target] by simp
  with n0 show "product \<noteq> 0"
    by (metis unat_eq_0)
  then show "safeDiv scaled product = Inr (scaled div product)"
    by (simp add: safeDiv_def)
next
  show "isRoundingError numerator denominator target = Inl e \<longleftrightarrow>
        e = AssertFailed
        \<and> (denominator = 0
            \<or> (unat target * unat numerator) mod unat denominator \<noteq> 0
              \<and> (2 ^ 256 \<le> (unat target * unat numerator) mod unat denominator * 1000000
                  \<or> 2 ^ 256 \<le> unat numerator * unat target))"
    by (auto simp: isRoundingError_cases Let_def not_less split: if_splits)
qed

theorem isRoundingError_no_zero_division_witness:
  "isRoundingError 0 3 5 = Inr False
   \<and> (mulmod 1000 1 3 = Inr 1 \<and> safeMul 1 1000 = Inr 1000
        \<and> safeDiv 1000000 1000 = Inr (1000000 div 1000))
   \<and> isRoundingError (2 ^ 200) 3 (2 ^ 57) = Inl AssertFailed
   \<and> isRoundingError 6 0 0 = Inl AssertFailed"
proof -
  have a: "mulmod 1000 1 3 = Inr 1"
    by (simp add: mulmod_def)
  have b: "safeMul 1 1000 = Inr 1000"
    by (simp add: safeMul_def)
  have c: "(unat (2 ^ 57 :: uint256) * unat (2 ^ 200 :: uint256)) mod unat (3 :: uint256) \<noteq> 0
      \<and> ((2 :: nat) ^ 256
            \<le> (unat (2 ^ 57 :: uint256) * unat (2 ^ 200 :: uint256)) mod unat (3 :: uint256) * 1000000
          \<or> (2 :: nat) ^ 256 \<le> unat (2 ^ 200 :: uint256) * unat (2 ^ 57 :: uint256))"
    by simp
  note t1 = isRoundingError_no_zero_division
      [where numerator = 0 and denominator = 3 and target = 5, THEN conjunct1]
  note t2 = isRoundingError_no_zero_division
      [where numerator = 1 and denominator = 3 and target = 1000 and remainder = 1
         and product = 1000 and scaled = 1000000, THEN conjunct2, THEN conjunct1]
  note t3 = isRoundingError_no_zero_division
      [where numerator = "2 ^ 200" and denominator = 3 and target = "2 ^ 57"
         and e = AssertFailed, THEN conjunct2, THEN conjunct2]
  note t4 = isRoundingError_no_zero_division
      [where numerator = 6 and denominator = 0 and target = 0 and e = AssertFailed,
       THEN conjunct2, THEN conjunct2]
  have "isRoundingError 0 3 5 = Inr False"
    using t1 by simp
  moreover have "safeDiv 1000000 1000 = Inr (1000000 div 1000)"
    using t2 a b by simp
  moreover have "isRoundingError (2 ^ 200) 3 (2 ^ 57) = Inl AssertFailed"
    using t3 c by simp
  moreover have "isRoundingError 6 0 0 = Inl AssertFailed"
    using t4 by simp
  ultimately show ?thesis using a b by simp
qed

text \<open>
  The claim as stated fails: \<open>isRoundingError(4, 0, 5)\<close> does not return \<open>false\<close> but
  aborts in \<open>mulmod\<close>, and \<open>isRoundingError(2 ^ 255, 3, 2)\<close> has remainder 1 and aborts
  in \<open>safeMul(numerator, target)\<close>; so the function is not total.
\<close>

theorem isRoundingError_not_total:
  "isRoundingError 4 0 5 = Inl AssertFailed
   \<and> mulmod 2 (2 ^ 255) 3 = Inr 1
   \<and> isRoundingError (2 ^ 255) 3 2 = Inl AssertFailed"
  by (simp add: isRoundingError_def mulmod_def safeMul_def safeDiv_def)

end
